theory Spec2Isabelle
  imports Main "HOL-Library.AList"
begin

section \<open>The untyped attribute tree\<close>

text \<open>
  Objects cross the boundary of the access layer as \<^verbatim>\<open>uo.UnstructuredObject\<close>: a tree of
  \<^verbatim>\<open>map[string]interface{}\<close>, \<^verbatim>\<open>[]interface{}\<close> and scalars. A Go map has no order and
  no duplicate keys; it is an association list here, read with \<^const>\<open>map_of\<close> and written
  with \<^const>\<open>AList.update\<close>, which overwrites the entry of a present key and adds an absent
  one. Numbers are the integers (a YAML \<^verbatim>\<open>cpu: 1\<close>); floating-point numbers are not part of
  the model.
\<close>

datatype json =
    JNull
  | JBool bool
  | JInt int
  | JStr string
  | JList "json list"
  | JMap "(string \<times> json) list"

subsection \<open>Decimal numerals and \<^verbatim>\<open>%v\<close>\<close>

fun showNat :: "nat \<Rightarrow> string" where
  "showNat n =
     (if n < 10 then [char_of (48 + n)]
      else showNat (n div 10) @ [char_of (48 + n mod 10)])"

declare showNat.simps [simp del]

definition showInt :: "int \<Rightarrow> string" where
  "showInt i = (if i < 0 then CHR ''-'' # showNat (nat (- i)) else showNat (nat i))"

fun strLess :: "string \<Rightarrow> string \<Rightarrow> bool" where
  "strLess [] [] = False"
| "strLess [] (y # ys) = True"
| "strLess (x # xs) [] = False"
| "strLess (x # xs) (y # ys) =
     ((of_char x :: nat) < of_char y \<or> (x = y \<and> strLess xs ys))"

fun insertKey :: "string \<times> string \<Rightarrow> (string \<times> string) list \<Rightarrow> (string \<times> string) list" where
  "insertKey e [] = [e]"
| "insertKey e (x # xs) = (if strLess (fst x) (fst e) then x # insertKey e xs else e # x # xs)"

definition sortKeys :: "(string \<times> string) list \<Rightarrow> (string \<times> string) list" where
  "sortKeys kvs = foldr insertKey kvs []"

fun joinWith :: "string \<Rightarrow> string list \<Rightarrow> string" where
  "joinWith sep [] = []"
| "joinWith sep [x] = x"
| "joinWith sep (x # y # ys) = x @ sep @ joinWith sep (y # ys)"

text \<open>
  \<^verbatim>\<open>fmt.Sprintf("%v", v)\<close> on a value of the tree: a number in decimal, a string as it
  is, a slice as \<^verbatim>\<open>[a b]\<close>, a map as \<^verbatim>\<open>map[k:v ...]\<close> with the keys in sorted order.
\<close>

fun Sprintf_v :: "json \<Rightarrow> string" where
  "Sprintf_v JNull = ''<nil>''"
| "Sprintf_v (JBool b) = (if b then ''true'' else ''false'')"
| "Sprintf_v (JInt i) = showInt i"
| "Sprintf_v (JStr s) = s"
| "Sprintf_v (JList xs) = ''['' @ joinWith '' '' (map Sprintf_v xs) @ '']''"
| "Sprintf_v (JMap kvs) =
     ''map['' @ joinWith '' ''
        (map (\<lambda>(k, s). k @ '':'' @ s) (sortKeys (map (\<lambda>(k, v). (k, Sprintf_v v)) kvs))) @ '']''"

subsection \<open>Paths into the tree\<close>

text \<open>
  Modelled from the spec: \<^verbatim>\<open>uo.MyJsonPath\<close> (\<^verbatim>\<open>NewMyJsonPathMust\<close>, \<^verbatim>\<open>GetFirstListOfMaps\<close>,
  \<^verbatim>\<open>GetFirstMap\<close>) is not among the sources. The spec speaks of transforms over attribute
  paths; the paths the source builds are keys separated by dots, a key being followed by any
  number of indexes \<^verbatim>\<open>[n]\<close>. A path is read into its fragments; a string that is not of
  this shape addresses nothing. A lookup is found when every fragment of the path leads to
  a value and the value has the type the accessor names.
\<close>

datatype frag = Child string | Nth nat

definition isKeyChar :: "char \<Rightarrow> bool" where
  "isKeyChar c = (c \<noteq> CHR ''.'' \<and> c \<noteq> CHR ''['' \<and> c \<noteq> CHR '']'')"

definition isDigit :: "char \<Rightarrow> bool" where
  "isDigit c = (48 \<le> (of_char c :: nat) \<and> (of_char c :: nat) \<le> 57)"

definition digitsToNat :: "string \<Rightarrow> nat" where
  "digitsToNat ds = foldl (\<lambda>a c. 10 * a + (of_char c - 48)) 0 ds"

function parseFrags :: "string \<Rightarrow> frag list option" where
  "parseFrags [] = Some []"
| "parseFrags (c # cs) =
     (if c = CHR ''.'' then
        (if takeWhile isKeyChar cs = [] then None
         else map_option ((#) (Child (takeWhile isKeyChar cs)))
                (parseFrags (dropWhile isKeyChar cs)))
      else if c = CHR ''['' then
        (if takeWhile isDigit cs = [] then None
         else (case dropWhile isDigit cs of
                 [] \<Rightarrow> None
               | r # rs \<Rightarrow>
                   if r = CHR '']''
                   then map_option ((#) (Nth (digitsToNat (takeWhile isDigit cs))))
                          (parseFrags rs)
                   else None))
      else None)"
  by pat_completeness auto

termination
proof (relation "measure length", goal_cases)
  case 1
  show ?case by simp
next
  case (2 c cs)
  show ?case using length_dropWhile_le [of isKeyChar cs] by simp
next
  case (3 c cs r rs)
  have "length (dropWhile isDigit cs) \<le> length cs" by (rule length_dropWhile_le)
  with 3 show ?case by simp
qed

text \<open>The first key of a path has no dot before it.\<close>

definition NewMyJsonPathMust :: "string \<Rightarrow> frag list option" where
  "NewMyJsonPathMust p = parseFrags (CHR ''.'' # p)"

fun step :: "frag \<Rightarrow> json \<Rightarrow> json option" where
  "step (Child k) (JMap kvs) = map_of kvs k"
| "step (Nth i) (JList xs) = (if i < length xs then Some (xs ! i) else None)"
| "step f v = None"

fun getPath :: "frag list \<Rightarrow> json \<Rightarrow> json option" where
  "getPath [] v = Some v"
| "getPath (f # fs) v = (case step f v of None \<Rightarrow> None | Some c \<Rightarrow> getPath fs c)"

fun destMap :: "json \<Rightarrow> (string \<times> json) list option" where
  "destMap (JMap kvs) = Some kvs"
| "destMap v = None"

fun destMaps :: "json list \<Rightarrow> (string \<times> json) list list option" where
  "destMaps [] = Some []"
| "destMaps (x # xs) =
     (case destMap x of
        None \<Rightarrow> None
      | Some m \<Rightarrow> (case destMaps xs of None \<Rightarrow> None | Some ms \<Rightarrow> Some (m # ms)))"

definition GetFirstMap :: "frag list \<Rightarrow> json \<Rightarrow> (string \<times> json) list option" where
  "GetFirstMap fs o' = (case getPath fs o' of Some (JMap kvs) \<Rightarrow> Some kvs | _ \<Rightarrow> None)"

definition GetFirstListOfMaps :: "frag list \<Rightarrow> json \<Rightarrow> (string \<times> json) list list option" where
  "GetFirstListOfMaps fs o' = (case getPath fs o' of Some (JList xs) \<Rightarrow> destMaps xs | _ \<Rightarrow> None)"

text \<open>
  The maps and slices a lookup returns are references into the tree: the source writes
  \<^verbatim>\<open>port["protocol"] = "TCP"\<close> and \<^verbatim>\<open>d[k] = ...\<close> through them and the object changes.
  \<open>modify fs g v\<close> is that write: the value the path \<open>fs\<close> addresses in \<open>v\<close> is replaced by
  its image under \<open>g\<close>; a path that addresses nothing leaves \<open>v\<close> as it is.
\<close>

fun modify :: "frag list \<Rightarrow> (json \<Rightarrow> json) \<Rightarrow> json \<Rightarrow> json" where
  "modify [] g v = g v"
| "modify (Child k # fs) g (JMap kvs) =
     (case map_of kvs k of
        None \<Rightarrow> JMap kvs
      | Some c \<Rightarrow> JMap (AList.update k (modify fs g c) kvs))"
| "modify (Nth i # fs) g (JList xs) =
     (if i < length xs then JList (xs[i := modify fs g (xs ! i)]) else JList xs)"
| "modify (f # fs) g v = v"

section \<open>Server versions\<close>

text \<open>
  \<^verbatim>\<open>goversion.Version\<close> (hashicorp/go-version, a third-party library): the numeric segments
  of the version and its pre-release tag. \<^verbatim>\<open>NewVersion("1.21")\<close> pads to three segments.
  Versions are ordered by their segments, a missing segment counting as zero; with equal
  segments a pre-release sorts before its release. Two different pre-release tags are
  ordered bytewise here; neither gate constant below has a tag, so that case is not reached
  by the code of this development.
\<close>

record version =
  segments :: "nat list"
  prerelease :: string

fun compareSegments :: "nat list \<Rightarrow> nat list \<Rightarrow> int" where
  "compareSegments [] [] = 0"
| "compareSegments [] (y # ys) = (if list_all (\<lambda>s. s = 0) (y # ys) then 0 else - 1)"
| "compareSegments (x # xs) [] = (if list_all (\<lambda>s. s = 0) (x # xs) then 0 else 1)"
| "compareSegments (x # xs) (y # ys) =
     (if x = y then compareSegments xs ys else if x < y then - 1 else 1)"

definition Compare :: "version \<Rightarrow> version \<Rightarrow> int" where
  "Compare v other =
     (let c = compareSegments (segments v) (segments other) in
      if c \<noteq> 0 then c
      else if prerelease v = prerelease other then 0
      else if prerelease v = [] then 1
      else if prerelease other = [] then - 1
      else if strLess (prerelease v) (prerelease other) then - 1 else 1)"

definition LessThan :: "version \<Rightarrow> version \<Rightarrow> bool" where
  "LessThan v other = (Compare v other < 0)"

definition v1_21 :: version where
  "v1_21 = \<lparr>segments = [1, 21, 0], prerelease = []\<rparr>"

definition v1_1000 :: version where
  "v1_1000 = \<lparr>segments = [1, 1000, 0], prerelease = []\<rparr>"

section \<open>The cluster handle\<close>

text \<open>
  \<^verbatim>\<open>K8sCluster\<close>. The context, the rest configuration, the client pool (a channel) and
  the resources (a pointer) are references: the record holds their identities, and what is
  behind them is part of the environment further below.
\<close>

record K8sCluster =
  ctx :: nat
  DryRun :: bool
  restConfig :: nat
  clientPool :: nat
  ServerVersion :: version
  Resources :: nat

definition ReadWrite :: "K8sCluster \<Rightarrow> K8sCluster" where
  "ReadWrite k = k\<lparr>DryRun := False\<rparr>"

section \<open>Pre-patch normalization\<close>

text \<open>\<^verbatim>\<open>o.Clone()\<close> is a deep copy: the same value, sharing nothing with the original.\<close>

definition Clone :: "json \<Rightarrow> json" where
  "Clone o' = o'"

definition fixPort :: "(string \<times> json) list \<Rightarrow> (string \<times> json) list" where
  "fixPort port =
     (case map_of port ''protocol'' of
        None \<Rightarrow> AList.update ''protocol'' (JStr ''TCP'') port
      | Some v \<Rightarrow> port)"

definition fixPorts :: "bool \<Rightarrow> string \<Rightarrow> json \<Rightarrow> json" where
  "fixPorts needsDefaultsFix p o' =
     (if \<not> needsDefaultsFix then o'
      else case NewMyJsonPathMust p of
        None \<Rightarrow> o'
      | Some fs \<Rightarrow>
          (case GetFirstListOfMaps fs o' of
             None \<Rightarrow> o'
           | Some ports \<Rightarrow> modify fs (\<lambda>_. JList (map (\<lambda>port. JMap (fixPort port)) ports)) o'))"

definition fixStringType :: "bool \<Rightarrow> string \<Rightarrow> string \<Rightarrow> json \<Rightarrow> json" where
  "fixStringType needsTypeConversionFix p k o' =
     (if \<not> needsTypeConversionFix then o'
      else case NewMyJsonPathMust p of
        None \<Rightarrow> o'
      | Some fs \<Rightarrow>
          (case GetFirstMap fs o' of
             None \<Rightarrow> o'
           | Some d \<Rightarrow>
               (case map_of d k of
                  None \<Rightarrow> o'
                | Some (JStr s) \<Rightarrow> o'
                | Some v \<Rightarrow> modify fs (\<lambda>_. JMap (AList.update k (JStr (Sprintf_v v)) d)) o')))"

definition fixContainer :: "bool \<Rightarrow> bool \<Rightarrow> string \<Rightarrow> json \<Rightarrow> json" where
  "fixContainer needsDefaultsFix needsTypeConversionFix p o' =
     fixStringType needsTypeConversionFix (p @ ''resources.requests'') ''cpu''
       (fixStringType needsTypeConversionFix (p @ ''resources.limits'') ''cpu''
          (fixPorts needsDefaultsFix (p @ ''.ports'') o'))"

definition fixContainers :: "bool \<Rightarrow> bool \<Rightarrow> string \<Rightarrow> json \<Rightarrow> json" where
  "fixContainers needsDefaultsFix needsTypeConversionFix p o' =
     (case NewMyJsonPathMust p of
        None \<Rightarrow> o'
      | Some fs \<Rightarrow>
          (case GetFirstListOfMaps fs o' of
             None \<Rightarrow> o'
           | Some containers \<Rightarrow>
               foldl (\<lambda>acc i. fixContainer needsDefaultsFix needsTypeConversionFix
                                (p @ ''['' @ showNat i @ '']'') acc)
                     o' [0 ..< length containers]))"

definition fixLimits :: "bool \<Rightarrow> string \<Rightarrow> json \<Rightarrow> json" where
  "fixLimits needsTypeConversionFix p o' =
     (case NewMyJsonPathMust p of
        None \<Rightarrow> o'
      | Some fs \<Rightarrow>
          (case GetFirstListOfMaps fs o' of
             None \<Rightarrow> o'
           | Some limits \<Rightarrow>
               foldl (\<lambda>acc i.
                        fixStringType needsTypeConversionFix
                          (p @ ''['' @ showNat i @ '']'' @ ''.defaultRequest'') ''cpu''
                          (fixStringType needsTypeConversionFix
                             (p @ ''['' @ showNat i @ '']'' @ ''.default'') ''cpu'' acc))
                     o' [0 ..< length limits]))"

definition FixObjectForPatch :: "K8sCluster \<Rightarrow> json \<Rightarrow> json" where
  "FixObjectForPatch k o' =
     (let needsDefaultsFix = (LessThan (ServerVersion k) v1_21 \<or> True);
          needsTypeConversionFix = LessThan (ServerVersion k) v1_1000
      in if \<not> needsDefaultsFix \<and> \<not> needsTypeConversionFix then o'
         else fixLimits needsTypeConversionFix ''spec.limits''
                (fixPorts needsDefaultsFix ''spec.ports''
                   (fixContainers needsDefaultsFix needsTypeConversionFix
                      ''spec.template.spec.containers'' (Clone o'))))"

section \<open>Errors\<close>

text \<open>
  The error values of the calls. An API status error carries its reason; the resolver
  answers an unknown kind with a no-match error; \<^verbatim>\<open>ctx.Err()\<close> of a context that is done
  is \<^verbatim>\<open>Canceled\<close> or \<^verbatim>\<open>DeadlineExceeded\<close>; anything else the transport reports is a
  \<open>TransportError\<close>.
  \<^verbatim>\<open>fmt.Errorf("...: %w", err)\<close> wraps an error under a message; the three messages of
  the source are the constructors of \<open>message\<close>, the two that print an object reference
  holding the reference.
\<close>

record GroupVersionKind =
  Group :: string
  Version :: string
  Kind :: string

record GroupVersionResource =
  ResourceGroup :: string
  ResourceVersion :: string
  Resource :: string

record ObjectRef =
  GVK :: GroupVersionKind
  Name :: string
  Namespace :: string

datatype reason = NotFound | Conflict | Forbidden | Invalid | Unknown

datatype message =
    FailedWaitingForFreeClient
  | FailedWaitingForDeletionOf ObjectRef
  | FailedToPatch ObjectRef

datatype ctxErr = Canceled | DeadlineExceeded

datatype error =
    StatusError reason string
  | NoKindMatchError GroupVersionKind
  | ContextError ctxErr
  | TransportError string
  | Wrapped message error

text \<open>
  \<^verbatim>\<open>errors.IsNotFound\<close> and \<^verbatim>\<open>meta.IsNoMatchError\<close> (k8s.io/apimachinery, a third-party
  library) classify an error by what it is, looking through the wrapping.
\<close>

fun IsNotFound :: "error \<Rightarrow> bool" where
  "IsNotFound (StatusError r m) = (r = NotFound)"
| "IsNotFound (Wrapped m e) = IsNotFound e"
| "IsNotFound e = False"

fun IsNoMatchError :: "error \<Rightarrow> bool" where
  "IsNoMatchError (NoKindMatchError gvk) = True"
| "IsNoMatchError (Wrapped m e) = IsNoMatchError e"
| "IsNoMatchError e = False"

section \<open>Requests, and the world a call runs in\<close>

record ApiWarning =
  Code :: int
  Agent :: string
  Text :: string

record parallelClientEntry =
  warnings :: "ApiWarning list"

definition HandleWarningHeader :: "parallelClientEntry \<Rightarrow> int \<Rightarrow> string \<Rightarrow> string \<Rightarrow> parallelClientEntry" where
  "HandleWarningHeader p code agent text =
     p\<lparr>warnings := warnings p @ [\<lparr>Code = code, Agent = agent, Text = text\<rparr>]\<rparr>"

definition parallelClients :: nat where
  "parallelClients = 16"

text \<open>
  The options of the package, and the options of the requests (\<^verbatim>\<open>v1.DeleteOptions\<close>,
  \<^verbatim>\<open>v1.PatchOptions\<close>, \<^verbatim>\<open>v1.UpdateOptions\<close>, \<^verbatim>\<open>v1.ListOptions\<close>) with the fields the
  source sets.
\<close>

record DeleteOptions =
  ForceDryRun :: bool
  NoWait :: bool
  IgnoreNotFoundError :: bool

record PatchOptions =
  ForceDryRun :: bool
  ForceApply :: bool

record UpdateOptions =
  ForceDryRun :: bool

record v1_ListOptions =
  LabelSelector :: string

record v1_DeleteOptions =
  PropagationPolicy :: "string option"
  DryRun :: "string list"

record v1_PatchOptions =
  FieldManager :: string
  DryRun :: "string list"
  Force :: "bool option"

record v1_UpdateOptions =
  FieldManager :: string
  DryRun :: "string list"

text \<open>
  \<^verbatim>\<open>dynamic.ResourceInterface\<close> and \<^verbatim>\<open>metadata.ResourceInterface\<close>: the client of one
  resource, in one namespace or in all of them.
\<close>

datatype client = Dynamic | Metadata

record ResourceInterface =
  Client :: client
  OfResource :: GroupVersionResource
  InNamespace :: "string option"

datatype request =
    ReqList ResourceInterface v1_ListOptions
  | ReqGet ResourceInterface string
  | ReqDelete ResourceInterface string v1_DeleteOptions
  | ReqPatch ResourceInterface string string string v1_PatchOptions
  | ReqUpdate ResourceInterface json v1_UpdateOptions

text \<open>
  A \<^verbatim>\<open>select\<close> between a channel (or a timer) and \<^verbatim>\<open>ctx.Done()\<close> either gets the
  value or finds the context done, with \<^verbatim>\<open>ctx.Err()\<close>.
\<close>

datatype selected = Ready | Done ctxErr

datatype event = Sent request | After nat

text \<open>
  Everything outside the process is the environment: which way each \<^verbatim>\<open>select\<close> goes, what
  the resolver knows, what the server answers (the warning headers of the response, and
  its body or an error). Each is a function of the time, a counter the world advances at
  every select and every request, so that the same request can be answered differently
  later. A function over all environments is a statement about every behaviour of the
  cluster and of the scheduler. The body of a list response is the list of its items.

  Modelled from the spec: \<^verbatim>\<open>k8sResources\<close> (the Resource Resolver: \<^verbatim>\<open>GetGVRForGVK\<close>,
  \<^verbatim>\<open>GetFilteredPreferredGVKs\<close>) and \<^verbatim>\<open>yaml.WriteYamlBytes\<close> are not among the sources. The
  resolver maps a kind to its resource and whether it is namespaced, or fails; it lists the
  preferred kinds with their verbs. Both are fields of the environment, read through the
  handle's \<open>Resources\<close> pointer.
\<close>

record APIResource =
  ResourceGVK :: GroupVersionKind
  Verbs :: "string list"

record env =
  acquire :: "nat \<Rightarrow> nat \<Rightarrow> nat \<Rightarrow> selected"
  after :: "nat \<Rightarrow> nat \<Rightarrow> nat \<Rightarrow> selected"
  GetGVRForGVK :: "nat \<Rightarrow> nat \<Rightarrow> GroupVersionKind \<Rightarrow> error + (GroupVersionResource \<times> bool)"
  preferredResources :: "nat \<Rightarrow> nat \<Rightarrow> APIResource list"
  serve :: "nat \<Rightarrow> request \<Rightarrow> (int \<times> string \<times> string) list \<times> (error + json)"
  WriteYamlBytes :: "json \<Rightarrow> error + string"

record world =
  now :: nat
  trace :: "event list"

definition tick :: "world \<Rightarrow> world" where
  "tick w = w\<lparr>now := now w + 1\<rparr>"

definition GetFilteredPreferredGVKs ::
    "env \<Rightarrow> K8sCluster \<Rightarrow> world \<Rightarrow> (APIResource \<Rightarrow> bool) \<Rightarrow> GroupVersionKind list" where
  "GetFilteredPreferredGVKs E k w flt =
     map ResourceGVK (filter flt (preferredResources E (now w) (Resources k)))"

text \<open>
  A request through a checked-out entry: the request is recorded, the time advances, the
  transport hands every warning header of the response to \<^verbatim>\<open>HandleWarningHeader\<close>.
\<close>

definition send ::
    "env \<Rightarrow> request \<Rightarrow> parallelClientEntry \<Rightarrow> world \<Rightarrow> (error + json) \<times> parallelClientEntry \<times> world" where
  "send E req p w =
     (case serve E (now w) req of
        (hs, r) \<Rightarrow>
          (r, foldl (\<lambda>p (code, agent, text). HandleWarningHeader p code agent text) p hs,
           (tick w)\<lparr>trace := trace w @ [Sent req]\<rparr>))"

section \<open>The client pool and the single calls\<close>

text \<open>
  \<^verbatim>\<open>withClientFromPool\<close>. The Go function returns the warnings and the error, the
  callback leaving its result in a variable of the caller; here the callback returns its
  result or its error. The entry goes back to the pool when the call ends (the deferred
  send); the pool is behind \<open>acquire\<close>.
\<close>

definition withClientFromPool ::
    "env \<Rightarrow> K8sCluster \<Rightarrow> (parallelClientEntry \<Rightarrow> world \<Rightarrow> (error + 'a) \<times> parallelClientEntry \<times> world)
      \<Rightarrow> world \<Rightarrow> (ApiWarning list \<times> (error + 'a)) \<times> world" where
  "withClientFromPool E k cb w =
     (case acquire E (now w) (clientPool k) (ctx k) of
        Ready \<Rightarrow>
          (case cb \<lparr>warnings = []\<rparr> (tick w) of
             (r, p, w') \<Rightarrow> ((warnings p, r), w'))
      | Done e \<Rightarrow> (([], Inl (Wrapped FailedWaitingForFreeClient (ContextError e))), tick w))"

definition withDynamicClientForGVK ::
    "env \<Rightarrow> K8sCluster \<Rightarrow> GroupVersionKind \<Rightarrow> string
      \<Rightarrow> (ResourceInterface \<Rightarrow> parallelClientEntry \<Rightarrow> world \<Rightarrow> (error + 'a) \<times> parallelClientEntry \<times> world)
      \<Rightarrow> world \<Rightarrow> (ApiWarning list \<times> (error + 'a)) \<times> world" where
  "withDynamicClientForGVK E k gvk namespace cb w =
     withClientFromPool E k
       (\<lambda>p w. case GetGVRForGVK E (now w) (Resources k) gvk of
                 Inl err \<Rightarrow> (Inl err, p, w)
               | Inr (gvr, namespaced) \<Rightarrow>
                   if namespaced \<and> namespace \<noteq> []
                   then cb \<lparr>Client = Dynamic, OfResource = gvr, InNamespace = Some namespace\<rparr> p w
                   else cb \<lparr>Client = Dynamic, OfResource = gvr, InNamespace = None\<rparr> p w)
       w"

definition withMetadataClientForGVK ::
    "env \<Rightarrow> K8sCluster \<Rightarrow> GroupVersionKind \<Rightarrow> string
      \<Rightarrow> (ResourceInterface \<Rightarrow> parallelClientEntry \<Rightarrow> world \<Rightarrow> (error + 'a) \<times> parallelClientEntry \<times> world)
      \<Rightarrow> world \<Rightarrow> (ApiWarning list \<times> (error + 'a)) \<times> world" where
  "withMetadataClientForGVK E k gvk namespace cb w =
     withClientFromPool E k
       (\<lambda>p w. case GetGVRForGVK E (now w) (Resources k) gvk of
                 Inl err \<Rightarrow> (Inl err, p, w)
               | Inr (gvr, namespaced) \<Rightarrow>
                   if namespaced \<and> namespace \<noteq> []
                   then cb \<lparr>Client = Metadata, OfResource = gvr, InNamespace = Some namespace\<rparr> p w
                   else cb \<lparr>Client = Metadata, OfResource = gvr, InNamespace = None\<rparr> p w)
       w"

text \<open>The labels are listed in the order the range over the map visits them.\<close>

fun buildLabelSelector :: "(string \<times> string) list \<Rightarrow> string" where
  "buildLabelSelector [] = []"
| "buildLabelSelector [(k, v)] = k @ ''='' @ v"
| "buildLabelSelector ((k, v) # l # ls) = k @ ''='' @ v @ '','' @ buildLabelSelector (l # ls)"

definition items :: "json \<Rightarrow> json list" where
  "items x = (case x of JList xs \<Rightarrow> xs | _ \<Rightarrow> [])"

text \<open>
  The triples the Go functions return: the result (empty when the call failed), the
  warnings, the error (\<open>None\<close> is \<^verbatim>\<open>nil\<close>).
\<close>

definition listResult ::
    "(ApiWarning list \<times> (error + json list)) \<times> world \<Rightarrow> (json list \<times> ApiWarning list \<times> error option) \<times> world" where
  "listResult r =
     (case r of
        ((ws, Inl err), w) \<Rightarrow> (([], ws, Some err), w)
      | ((ws, Inr xs), w) \<Rightarrow> ((xs, ws, None), w))"

definition objectResult ::
    "(ApiWarning list \<times> (error + json)) \<times> world \<Rightarrow> (json option \<times> ApiWarning list \<times> error option) \<times> world" where
  "objectResult r =
     (case r of
        ((ws, Inl err), w) \<Rightarrow> ((None, ws, Some err), w)
      | ((ws, Inr x), w) \<Rightarrow> ((Some x, ws, None), w))"

definition ListObjects ::
    "env \<Rightarrow> K8sCluster \<Rightarrow> GroupVersionKind \<Rightarrow> string \<Rightarrow> (string \<times> string) list \<Rightarrow> world
      \<Rightarrow> (json list \<times> ApiWarning list \<times> error option) \<times> world" where
  "ListObjects E k gvk namespace labels w =
     listResult
       (withDynamicClientForGVK E k gvk namespace
          (\<lambda>r p w. case send E (ReqList r \<lparr>LabelSelector = buildLabelSelector labels\<rparr>) p w of
                      (Inl err, p', w') \<Rightarrow> (Inl err, p', w')
                    | (Inr x, p', w') \<Rightarrow> (Inr (items x), p', w'))
          w)"

text \<open>
  Modelled from the spec: \<^verbatim>\<open>SetK8sGVK\<close> and \<^verbatim>\<open>GetK8sRef\<close> of \<^verbatim>\<open>uo.UnstructuredObject\<close>
  are not among the sources. An object reference is the identity key (group, version, kind,
  namespace, name); in the tree the group and version are the \<^verbatim>\<open>apiVersion\<close>, written
  \<^verbatim>\<open>group/version\<close>, or the version alone for the empty group.
\<close>

definition apiVersionOf :: "GroupVersionKind \<Rightarrow> string" where
  "apiVersionOf gvk = (if Group gvk = [] then Version gvk else Group gvk @ ''/'' @ Version gvk)"

definition SetK8sGVK :: "json \<Rightarrow> GroupVersionKind \<Rightarrow> json" where
  "SetK8sGVK u gvk =
     (case u of
        JMap kvs \<Rightarrow>
          JMap (AList.update ''kind'' (JStr (Kind gvk))
                  (AList.update ''apiVersion'' (JStr (apiVersionOf gvk)) kvs))
      | _ \<Rightarrow> u)"

definition stringAtPath :: "frag list \<Rightarrow> json \<Rightarrow> string" where
  "stringAtPath fs u = (case getPath fs u of Some (JStr s) \<Rightarrow> s | _ \<Rightarrow> [])"

definition gvkOfApiVersion :: "string \<Rightarrow> string \<Rightarrow> GroupVersionKind" where
  "gvkOfApiVersion av kind =
     (if CHR ''/'' \<in> set av
      then \<lparr>Group = takeWhile (\<lambda>c. c \<noteq> CHR ''/'') av,
            Version = drop 1 (dropWhile (\<lambda>c. c \<noteq> CHR ''/'') av), Kind = kind\<rparr>
      else \<lparr>Group = [], Version = av, Kind = kind\<rparr>)"

definition GetK8sRef :: "json \<Rightarrow> ObjectRef" where
  "GetK8sRef u =
     \<lparr>GVK = gvkOfApiVersion (stringAtPath [Child ''apiVersion''] u) (stringAtPath [Child ''kind''] u),
      Name = stringAtPath [Child ''metadata'', Child ''name''] u,
      Namespace = stringAtPath [Child ''metadata'', Child ''namespace''] u\<rparr>"

definition ListObjectsMetadata ::
    "env \<Rightarrow> K8sCluster \<Rightarrow> GroupVersionKind \<Rightarrow> string \<Rightarrow> (string \<times> string) list \<Rightarrow> world
      \<Rightarrow> (json list \<times> ApiWarning list \<times> error option) \<times> world" where
  "ListObjectsMetadata E k gvk namespace labels w =
     listResult
       (withMetadataClientForGVK E k gvk namespace
          (\<lambda>r p w. case send E (ReqList r \<lparr>LabelSelector = buildLabelSelector labels\<rparr>) p w of
                      (Inl err, p', w') \<Rightarrow> (Inl err, p', w')
                    | (Inr x, p', w') \<Rightarrow> (Inr (map (\<lambda>u. SetK8sGVK u gvk) (items x)), p', w'))
          w)"

definition GetSingleObject ::
    "env \<Rightarrow> K8sCluster \<Rightarrow> ObjectRef \<Rightarrow> world \<Rightarrow> (json option \<times> ApiWarning list \<times> error option) \<times> world" where
  "GetSingleObject E k ref w =
     objectResult
       (withDynamicClientForGVK E k (GVK ref) (Namespace ref)
          (\<lambda>r p w. send E (ReqGet r (Name ref)) p w)
          w)"

section \<open>The worker pool\<close>

text \<open>
  Modelled from the spec: \<^verbatim>\<open>utils.WorkerPoolWithErrors\<close> is not among the sources. Units
  of work are submitted to a bounded pool of workers; each unit runs once; the error a unit
  returns is recorded; \<^verbatim>\<open>StopWait(false)\<close> stops further submissions, lets the submitted
  units finish, and returns the first recorded error, or \<^verbatim>\<open>nil\<close> when there is none.

  The workers run concurrently. What a unit does to the shared accumulators it does with
  the mutex held, so the units take effect one after the other, in the order the workers
  finish them: the \<open>order\<close> below, a list of positions in the list of submitted units.
  The order is a parameter; a statement for every order is a statement for every
  interleaving. A valid order names every submitted unit once.
\<close>

record WorkerPoolWithErrors =
  maxWorkers :: nat
  errors :: "error list"

definition NewWorkerPoolWithErrors :: "nat \<Rightarrow> WorkerPoolWithErrors" where
  "NewWorkerPoolWithErrors n = \<lparr>maxWorkers = n, errors = []\<rparr>"

definition Submit ::
    "('s \<Rightarrow> error option \<times> 's) \<Rightarrow> WorkerPoolWithErrors \<times> 's \<Rightarrow> WorkerPoolWithErrors \<times> 's" where
  "Submit cb ps =
     (case ps of
        (wp, s) \<Rightarrow>
          (case cb s of
             (None, s') \<Rightarrow> (wp, s')
           | (Some err, s') \<Rightarrow> (wp\<lparr>errors := errors wp @ [err]\<rparr>, s')))"

definition StopWait :: "WorkerPoolWithErrors \<Rightarrow> error option" where
  "StopWait wp = (case errors wp of [] \<Rightarrow> None | err # _ \<Rightarrow> Some err)"

definition isOrder :: "nat \<Rightarrow> nat list \<Rightarrow> bool" where
  "isOrder n order = (distinct order \<and> set order = {0 ..< n})"

definition scheduled :: "nat list \<Rightarrow> 'a list \<Rightarrow> 'a list" where
  "scheduled order units = map (\<lambda>i. units ! i) (filter (\<lambda>i. i < length units) order)"

section \<open>The fan-out queries\<close>

text \<open>
  The accumulators of a fan-out call: the objects, the warnings per key, and the world
  the units run in.
\<close>

record 'k fanout =
  ret :: "json list"
  retApiWarnings :: "'k \<rightharpoonup> ApiWarning list"
  theWorld :: world

definition listFilter :: "string list \<Rightarrow> APIResource \<Rightarrow> bool" where
  "listFilter verbs ar = list_ex (\<lambda>v. v \<in> set (Verbs ar)) verbs"

text \<open>
  The unit of \<^verbatim>\<open>ListAllObjects\<close> for one kind. Each unit lists the kind of its own
  iteration of the loop.
\<close>

definition listUnit ::
    "env \<Rightarrow> K8sCluster \<Rightarrow> string \<Rightarrow> (string \<times> string) list \<Rightarrow> bool \<Rightarrow> GroupVersionKind
      \<Rightarrow> GroupVersionKind fanout \<Rightarrow> error option \<times> GroupVersionKind fanout" where
  "listUnit E k namespace labels onlyMetadata gvk s =
     (case (if onlyMetadata then ListObjectsMetadata E k gvk namespace labels (theWorld s)
            else ListObjects E k gvk namespace labels (theWorld s)) of
        ((l, apiWarnings, err), w') \<Rightarrow>
          if (case err of Some e \<Rightarrow> \<not> IsNotFound e | None \<Rightarrow> False)
          then (err, s\<lparr>theWorld := w'\<rparr>)
          else (None, s\<lparr>ret := ret s @ l,
                         retApiWarnings := (if apiWarnings \<noteq> []
                                            then (retApiWarnings s)(gvk \<mapsto> apiWarnings)
                                            else retApiWarnings s),
                         theWorld := w'\<rparr>))"

definition ListAllObjects ::
    "env \<Rightarrow> K8sCluster \<Rightarrow> nat list \<Rightarrow> string list \<Rightarrow> string \<Rightarrow> (string \<times> string) list \<Rightarrow> bool \<Rightarrow> world
      \<Rightarrow> (json list \<times> (GroupVersionKind \<rightharpoonup> ApiWarning list) \<times> error option) \<times> world" where
  "ListAllObjects E k order verbs namespace labels onlyMetadata w =
     (let wp = NewWorkerPoolWithErrors 8;
          units = map (listUnit E k namespace labels onlyMetadata)
                    (GetFilteredPreferredGVKs E k w (listFilter verbs));
          (wp', s) = foldl (\<lambda>ps cb. Submit cb ps)
                       (wp, \<lparr>ret = [], retApiWarnings = Map.empty, theWorld = w\<rparr>)
                       (scheduled order units)
      in case StopWait wp' of
           Some err \<Rightarrow> (([], retApiWarnings s, Some err), theWorld s)
         | None \<Rightarrow> ((ret s, retApiWarnings s, None), theWorld s))"

definition getUnit ::
    "env \<Rightarrow> K8sCluster \<Rightarrow> ObjectRef \<Rightarrow> ObjectRef fanout \<Rightarrow> error option \<times> ObjectRef fanout" where
  "getUnit E k ref s =
     (case GetSingleObject E k ref (theWorld s) of
        ((o', apiWarnings, err), w') \<Rightarrow>
          (let s' = s\<lparr>retApiWarnings := (if apiWarnings \<noteq> []
                                          then (retApiWarnings s)(ref \<mapsto> apiWarnings)
                                          else retApiWarnings s),
                      theWorld := w'\<rparr>
           in case err of
                Some e \<Rightarrow> if IsNotFound e \<or> IsNoMatchError e then (None, s') else (Some e, s')
              | None \<Rightarrow> (None, s'\<lparr>ret := ret s' @ (case o' of None \<Rightarrow> [] | Some x \<Rightarrow> [x])\<rparr>)))"

definition GetObjectsByRefs ::
    "env \<Rightarrow> K8sCluster \<Rightarrow> nat list \<Rightarrow> ObjectRef list \<Rightarrow> world
      \<Rightarrow> (json list \<times> (ObjectRef \<rightharpoonup> ApiWarning list) \<times> error option) \<times> world" where
  "GetObjectsByRefs E k order refs w =
     (let wp = NewWorkerPoolWithErrors 32;
          units = map (getUnit E k) refs;
          (wp', s) = foldl (\<lambda>ps cb. Submit cb ps)
                       (wp, \<lparr>ret = [], retApiWarnings = Map.empty, theWorld = w\<rparr>)
                       (scheduled order units)
      in case StopWait wp' of
           Some err \<Rightarrow> (([], retApiWarnings s, Some err), theWorld s)
         | None \<Rightarrow> ((ret s, retApiWarnings s, None), theWorld s))"

section \<open>Delete, patch, update\<close>

definition dryRunAll :: "bool \<Rightarrow> string list" where
  "dryRunAll dryRun = (if dryRun then [''All''] else [])"

text \<open>
  \<^verbatim>\<open>waitForDeletedObject\<close> loops until a fetch fails or the context is done; it need not
  return, and \<open>None\<close> is the run that never does. The interval of the timer is 500
  milliseconds.
\<close>

partial_function (option) waitForDeletedObject ::
    "env \<Rightarrow> K8sCluster \<Rightarrow> ObjectRef \<Rightarrow> world \<Rightarrow> (error option \<times> world) option" where
  "waitForDeletedObject E k ref w =
     (case GetSingleObject E k ref w of
        ((o', apiWarnings, Some err), w') \<Rightarrow>
          if IsNotFound err then Some (None, w') else Some (Some err, w')
      | ((o', apiWarnings, None), w') \<Rightarrow>
          (case after E (now w') (ctx k) 500 of
             Ready \<Rightarrow> waitForDeletedObject E k ref ((tick w')\<lparr>trace := trace w' @ [After 500]\<rparr>)
           | Done e \<Rightarrow>
               Some (Some (Wrapped (FailedWaitingForDeletionOf ref) (ContextError e)),
                     (tick w')\<lparr>trace := trace w' @ [After 500]\<rparr>)))"

definition DeleteSingleObject ::
    "env \<Rightarrow> K8sCluster \<Rightarrow> ObjectRef \<Rightarrow> DeleteOptions \<Rightarrow> world
      \<Rightarrow> ((ApiWarning list \<times> error option) \<times> world) option" where
  "DeleteSingleObject E k ref options w =
     (let dryRun = (K8sCluster.DryRun k \<or> DeleteOptions.ForceDryRun options);
          o' = \<lparr>PropagationPolicy = Some ''Foreground'', v1_DeleteOptions.DryRun = dryRunAll dryRun\<rparr>
      in case withDynamicClientForGVK E k (GVK ref) (Namespace ref)
                (\<lambda>r p w. case send E (ReqDelete r (Name ref) o') p w of
                            (Inl err, p', w') \<Rightarrow>
                              if IgnoreNotFoundError options \<and> IsNotFound err
                              then (Inr (), p', w') else (Inl err, p', w')
                          | (Inr x, p', w') \<Rightarrow> (Inr (), p', w'))
                w of
           ((apiWarnings, Inl err), w') \<Rightarrow> Some ((apiWarnings, Some err), w')
         | ((apiWarnings, Inr u), w') \<Rightarrow>
             if \<not> dryRun \<and> \<not> NoWait options
             then (case waitForDeletedObject E k ref w' of
                     None \<Rightarrow> None
                   | Some (Some err, w'') \<Rightarrow> Some ((apiWarnings, Some err), w'')
                   | Some (None, w'') \<Rightarrow> Some ((apiWarnings, None), w''))
             else Some ((apiWarnings, None), w'))"

definition PatchObject ::
    "env \<Rightarrow> K8sCluster \<Rightarrow> json \<Rightarrow> PatchOptions \<Rightarrow> world
      \<Rightarrow> (json option \<times> ApiWarning list \<times> error option) \<times> world" where
  "PatchObject E k o' options w =
     (let dryRun = (K8sCluster.DryRun k \<or> PatchOptions.ForceDryRun options);
          ref = GetK8sRef o'
      in case WriteYamlBytes E o' of
           Inl err \<Rightarrow> ((None, [], Some err), w)
         | Inr data \<Rightarrow>
             (let po = \<lparr>v1_PatchOptions.FieldManager = ''kluctl'', DryRun = dryRunAll dryRun,
                        Force = (if ForceApply options then Some True else None)\<rparr>
              in objectResult
                   (withDynamicClientForGVK E k (GVK ref) (Namespace ref)
                      (\<lambda>r p w. case send E (ReqPatch r (Name ref) ''application/apply-patch+yaml'' data po) p w of
                                  (Inl err, p', w') \<Rightarrow> (Inl (Wrapped (FailedToPatch ref) err), p', w')
                                | (Inr x, p', w') \<Rightarrow> (Inr x, p', w'))
                      w)))"

definition UpdateObject ::
    "env \<Rightarrow> K8sCluster \<Rightarrow> json \<Rightarrow> UpdateOptions \<Rightarrow> world
      \<Rightarrow> (json option \<times> ApiWarning list \<times> error option) \<times> world" where
  "UpdateObject E k o' options w =
     (let dryRun = (K8sCluster.DryRun k \<or> UpdateOptions.ForceDryRun options);
          ref = GetK8sRef o';
          updateOpts = \<lparr>v1_UpdateOptions.FieldManager = ''kluctl'', DryRun = dryRunAll dryRun\<rparr>
      in objectResult
           (withDynamicClientForGVK E k (GVK ref) (Namespace ref)
              (\<lambda>r p w. send E (ReqUpdate r o' updateOpts) p w)
              w))"


subsection \<open>What the normalization is checked against\<close>

text \<open>
  The two writes of the normalization, on a path already read into its fragments: the
  body of \<^verbatim>\<open>fixPorts\<close> and of \<^verbatim>\<open>fixStringType\<close> once
  \<^verbatim>\<open>NewMyJsonPathMust\<close> has returned.
\<close>

definition portsAt :: "frag list \<Rightarrow> json \<Rightarrow> json" where
  "portsAt fs o' =
     (case GetFirstListOfMaps fs o' of
        None \<Rightarrow> o'
      | Some ports \<Rightarrow> modify fs (\<lambda>_. JList (map (\<lambda>port. JMap (fixPort port)) ports)) o')"

definition stringAt :: "frag list \<Rightarrow> string \<Rightarrow> json \<Rightarrow> json" where
  "stringAt fs k o' =
     (case GetFirstMap fs o' of
        None \<Rightarrow> o'
      | Some d \<Rightarrow>
          (case map_of d k of
             None \<Rightarrow> o'
           | Some (JStr s) \<Rightarrow> o'
           | Some v \<Rightarrow> modify fs (\<lambda>_. JMap (AList.update k (JStr (Sprintf_v v)) d)) o'))"

text \<open>Predicates on port entries, for the statements below.\<close>

fun isMap :: "json \<Rightarrow> bool" where
  "isMap (JMap kvs) = True"
| "isMap v = False"

fun hasProtocol :: "json \<Rightarrow> bool" where
  "hasProtocol (JMap kvs) = (map_of kvs ''protocol'' \<noteq> None)"
| "hasProtocol v = False"

text \<open>
  \<open>portDefaulted port r\<close>: \<open>r\<close> is the port entry \<open>port\<close> after normalization. Its
  protocol is the one \<open>port\<close> had, or \<^verbatim>\<open>TCP\<close> when it had none; every other key is
  as it was.
\<close>

definition portDefaulted :: "json \<Rightarrow> json option \<Rightarrow> bool" where
  "portDefaulted port r =
     (\<exists>m m'. port = JMap m \<and> r = Some (JMap m') \<and>
        map_of m' ''protocol'' =
          Some (case map_of m ''protocol'' of None \<Rightarrow> JStr ''TCP'' | Some v \<Rightarrow> v) \<and>
        (\<forall>key. key \<noteq> ''protocol'' \<longrightarrow> map_of m' key = map_of m key))"

abbreviation (input) "containersPath \<equiv>
  [Child ''spec'', Child ''template'', Child ''spec'', Child ''containers'']"

subsection \<open>Example clusters and objects\<close>

definition cluster_1_25 :: K8sCluster where
  "cluster_1_25 = \<lparr>ctx = 0, DryRun = False, restConfig = 0, clientPool = 0,
           ServerVersion = \<lparr>segments = [1, 25, 3], prerelease = []\<rparr>, Resources = 0\<rparr>"

definition cluster_1_1000 :: K8sCluster where
  "cluster_1_1000 = \<lparr>ctx = 0, DryRun = False, restConfig = 0, clientPool = 0,
           ServerVersion = \<lparr>segments = [1, 1000, 0], prerelease = []\<rparr>, Resources = 0\<rparr>"

definition service0 :: json where
  "service0 = JMap [(''spec'', JMap [(''ports'',
      JList [JMap [(''port'', JInt 80)], JMap [(''port'', JInt 53), (''protocol'', JStr ''UDP'')]])])]"

definition deployment0 :: json where
  "deployment0 = JMap [(''spec'', JMap [(''template'', JMap [(''spec'', JMap [(''containers'', JList [
       JMap [(''name'', JStr ''web''),
             (''ports'', JList [JMap [(''containerPort'', JInt 8080)]]),
             (''resources'', JMap [(''limits'', JMap [(''cpu'', JInt 1)]),
                                   (''requests'', JMap [(''cpu'', JInt 1)])])]])])])])]"

definition limitRange0 :: json where
  "limitRange0 = JMap [(''spec'', JMap [(''limits'', JList [
       JMap [(''default'', JMap [(''cpu'', JInt 2)]),
             (''defaultRequest'', JMap [(''cpu'', JInt 1)])]])])]"


section \<open>What the calls are checked against\<close>

text \<open>
  \<open>runs f xs w\<close>: the calls \<open>f x\<close> made one after the other from the world \<open>w\<close>, each
  with what it returned; \<open>endOf f xs w\<close> is the world after the last.
\<close>

fun runs :: "('a \<Rightarrow> world \<Rightarrow> 'r \<times> world) \<Rightarrow> 'a list \<Rightarrow> world \<Rightarrow> ('a \<times> 'r) list" where
  "runs f [] w = []"
| "runs f (x # xs) w = (case f x w of (r, w') \<Rightarrow> (x, r) # runs f xs w')"

fun endOf :: "('a \<Rightarrow> world \<Rightarrow> 'r \<times> world) \<Rightarrow> 'a list \<Rightarrow> world \<Rightarrow> world" where
  "endOf f [] w = w"
| "endOf f (x # xs) w = (case f x w of (r, w') \<Rightarrow> endOf f xs w')"

text \<open>
  The lookups of \<^verbatim>\<open>GetObjectsByRefs\<close> and the list calls of \<^verbatim>\<open>ListAllObjects\<close>, in the
  order the workers finish them.
\<close>

definition lookups ::
    "env \<Rightarrow> K8sCluster \<Rightarrow> nat list \<Rightarrow> ObjectRef list \<Rightarrow> world
      \<Rightarrow> (ObjectRef \<times> json option \<times> ApiWarning list \<times> error option) list" where
  "lookups E k order refs w = runs (GetSingleObject E k) (scheduled order refs) w"

definition listCall ::
    "env \<Rightarrow> K8sCluster \<Rightarrow> string \<Rightarrow> (string \<times> string) list \<Rightarrow> bool \<Rightarrow> GroupVersionKind \<Rightarrow> world
      \<Rightarrow> (json list \<times> ApiWarning list \<times> error option) \<times> world" where
  "listCall E k namespace labels onlyMetadata gvk w =
     (if onlyMetadata then ListObjectsMetadata E k gvk namespace labels w
      else ListObjects E k gvk namespace labels w)"

definition listings ::
    "env \<Rightarrow> K8sCluster \<Rightarrow> nat list \<Rightarrow> string list \<Rightarrow> string \<Rightarrow> (string \<times> string) list \<Rightarrow> bool \<Rightarrow> world
      \<Rightarrow> (GroupVersionKind \<times> json list \<times> ApiWarning list \<times> error option) list" where
  "listings E k order verbs namespace labels onlyMetadata w =
     runs (listCall E k namespace labels onlyMetadata)
       (scheduled order (GetFilteredPreferredGVKs E k w (listFilter verbs))) w"

text \<open>
  A hard error of a lookup is one that is neither not-found nor no-match; a hard error of a
  list call, as \<^verbatim>\<open>ListAllObjects\<close> has it, is one that is not not-found.
\<close>

definition hardGet :: "error option \<Rightarrow> bool" where
  "hardGet err = (case err of None \<Rightarrow> False | Some e \<Rightarrow> \<not> IsNotFound e \<and> \<not> IsNoMatchError e)"

definition hardList :: "error option \<Rightarrow> bool" where
  "hardList err = (case err of None \<Rightarrow> False | Some e \<Rightarrow> \<not> IsNotFound e)"

definition errOf :: "'k \<times> 'r \<times> ApiWarning list \<times> error option \<Rightarrow> error option" where
  "errOf x = snd (snd (snd x))"

definition warningsOf :: "'k \<times> 'r \<times> ApiWarning list \<times> error option \<Rightarrow> ApiWarning list" where
  "warningsOf x = fst (snd (snd x))"

definition resultOf :: "'k \<times> 'r \<times> ApiWarning list \<times> error option \<Rightarrow> 'r" where
  "resultOf x = fst (snd x)"

text \<open>
  The warnings recorded under a key by a sequence of calls: those of the last call for
  that key that returned any.
\<close>

definition lastWarnings ::
    "('k \<times> 'r \<times> ApiWarning list \<times> error option) list \<Rightarrow> 'k \<Rightarrow> ApiWarning list option" where
  "lastWarnings tr key =
     (if filter (\<lambda>x. fst x = key \<and> warningsOf x \<noteq> []) tr = [] then None
      else Some (warningsOf (last (filter (\<lambda>x. fst x = key \<and> warningsOf x \<noteq> []) tr))))"

text \<open>
  What a fan-out call has to return, read off the calls its units made: the objects of
  the calls that succeeded, the hard errors in the order they occurred.
\<close>

definition foundObjects :: "('k \<times> json option \<times> ApiWarning list \<times> error option) list \<Rightarrow> json list" where
  "foundObjects tr =
     concat (map (\<lambda>x. if errOf x = None then (case resultOf x of None \<Rightarrow> [] | Some v \<Rightarrow> [v]) else []) tr)"

definition listedObjects :: "('k \<times> json list \<times> ApiWarning list \<times> error option) list \<Rightarrow> json list" where
  "listedObjects tr = concat (map (\<lambda>x. if hardList (errOf x) then [] else resultOf x) tr)"

definition hardErrors ::
    "(error option \<Rightarrow> bool) \<Rightarrow> ('k \<times> 'r \<times> ApiWarning list \<times> error option) list \<Rightarrow> error list" where
  "hardErrors hard tr = map the (filter hard (map errOf tr))"

text \<open>The three values a fan-out call returns.\<close>

definition objectsReturned :: "('a \<times> 'b \<times> 'c) \<times> world \<Rightarrow> 'a" where
  "objectsReturned r = fst (fst r)"

definition warningsReturned :: "('a \<times> 'b \<times> 'c) \<times> world \<Rightarrow> 'b" where
  "warningsReturned r = fst (snd (fst r))"

definition errorReturned :: "('a \<times> 'b \<times> 'c) \<times> world \<Rightarrow> 'c" where
  "errorReturned r = snd (snd (fst r))"

subsection \<open>Example environments\<close>

definition world0 :: world where
  "world0 = \<lparr>now = 0, trace = []\<rparr>"

definition gvkWidget :: GroupVersionKind where
  "gvkWidget = \<lparr>Group = ''example.com'', Version = ''v1'', Kind = ''Widget''\<rparr>"

definition gvrWidgets :: GroupVersionResource where
  "gvrWidgets = \<lparr>ResourceGroup = ''example.com'', ResourceVersion = ''v1'', Resource = ''widgets''\<rparr>"

definition refGone :: ObjectRef where
  "refGone = \<lparr>GVK = gvkWidget, Name = ''gone'', Namespace = ''default''\<rparr>"

definition refHere :: ObjectRef where
  "refHere = \<lparr>GVK = gvkWidget, Name = ''here'', Namespace = ''default''\<rparr>"

definition refDown :: ObjectRef where
  "refDown = \<lparr>GVK = gvkWidget, Name = ''down'', Namespace = ''default''\<rparr>"

definition widgetHere :: json where
  "widgetHere = JMap [(''apiVersion'', JStr ''example.com/v1''), (''kind'', JStr ''Widget''),
                      (''metadata'', JMap [(''name'', JStr ''here''), (''namespace'', JStr ''default'')])]"

definition warnDeprecated :: ApiWarning where
  "warnDeprecated = \<lparr>Code = 299, Agent = ''-'', Text = ''example.com/v1 Widget is deprecated''\<rparr>"

text \<open>
  A cluster that knows the kind \<^verbatim>\<open>Widget\<close>: the object \<^verbatim>\<open>here\<close> exists; a fetch of
  \<^verbatim>\<open>gone\<close> is answered not-found, with a deprecation warning in the headers; a fetch of
  \<^verbatim>\<open>down\<close> fails in the transport, again after a warning; every other request succeeds.
\<close>

definition envWidgets :: env where
  "envWidgets =
     \<lparr>acquire = (\<lambda>t pool c. Ready),
      after = (\<lambda>t c d. Ready),
      GetGVRForGVK = (\<lambda>t res gvk. Inr (gvrWidgets, True)),
      preferredResources = (\<lambda>t res. [\<lparr>ResourceGVK = gvkWidget, Verbs = [''get'', ''list'']\<rparr>]),
      serve = (\<lambda>t req. case req of
                 ReqGet r name \<Rightarrow>
                   if name = ''gone''
                   then ([(299, ''-'', ''example.com/v1 Widget is deprecated'')],
                         Inl (StatusError NotFound ''widgets gone not found''))
                   else if name = ''down''
                   then ([(299, ''-'', ''example.com/v1 Widget is deprecated'')],
                         Inl (TransportError ''connection refused''))
                   else ([], Inr widgetHere)
               | ReqList r opts \<Rightarrow> ([], Inr (JList [widgetHere]))
               | _ \<Rightarrow> ([], Inr JNull)),
      WriteYamlBytes = (\<lambda>u. Inr (Sprintf_v u))\<rparr>"

text \<open>
  The same cluster after the kind has gone from the resolver: every resolution fails with
  a no-match error.
\<close>

definition envNoMatch :: env where
  "envNoMatch = envWidgets\<lparr>GetGVRForGVK := (\<lambda>t res gvk. Inl (NoKindMatchError gvk))\<rparr>"


section \<open>Properties of the path reader\<close>

lemma of_char_digit: "(d::nat) < 10 \<Longrightarrow> (of_char (char_of (48 + d)) :: nat) = 48 + d"
  by (simp add: of_char_of)

lemma isDigit_digit: "(d::nat) < 10 \<Longrightarrow> isDigit (char_of (48 + d))"
  by (simp add: isDigit_def of_char_digit)

lemma showNat_digits: "list_all isDigit (showNat n)"
proof (induction n rule: showNat.induct)
  case (1 n)
  show ?case
  proof (cases "n < 10")
    case True
    then show ?thesis by (subst showNat.simps) (simp add: isDigit_digit)
  next
    case False
    with 1 show ?thesis by (subst showNat.simps) (simp add: isDigit_digit)
  qed
qed

lemma showNat_nonempty: "showNat n \<noteq> []"
  by (subst showNat.simps) simp

lemma digitsToNat_snoc: "digitsToNat (ds @ [c]) = 10 * digitsToNat ds + (of_char c - 48)"
  by (simp add: digitsToNat_def)

lemma digitsToNat_showNat: "digitsToNat (showNat n) = n"
proof (induction n rule: showNat.induct)
  case (1 n)
  show ?case
  proof (cases "n < 10")
    case True
    then show ?thesis by (subst showNat.simps) (simp add: digitsToNat_def of_char_digit)
  next
    case False
    with 1 show ?thesis
      by (subst showNat.simps) (simp add: digitsToNat_snoc of_char_digit)
  qed
qed

lemma not_isDigit_close: "\<not> isDigit CHR '']''"
  by (simp add: isDigit_def)

lemma takeWhile_showNat: "takeWhile isDigit (showNat i @ CHR '']'' # rest) = showNat i"
  using showNat_digits [of i] by (simp add: takeWhile_append2 list_all_iff not_isDigit_close)

lemma dropWhile_showNat: "dropWhile isDigit (showNat i @ CHR '']'' # rest) = CHR '']'' # rest"
  using showNat_digits [of i] by (simp add: dropWhile_append2 list_all_iff not_isDigit_close)

lemma parseFrags_index:
  "parseFrags (CHR ''['' # showNat i @ CHR '']'' # rest) = map_option ((#) (Nth i)) (parseFrags rest)"
  by (simp add: takeWhile_showNat dropWhile_showNat showNat_nonempty digitsToNat_showNat)

lemma parse_service_ports: "NewMyJsonPathMust ''spec.ports'' = Some [Child ''spec'', Child ''ports'']"
  by (simp add: NewMyJsonPathMust_def isKeyChar_def)

lemma parse_containers: "NewMyJsonPathMust ''spec.template.spec.containers'' =
   Some [Child ''spec'', Child ''template'', Child ''spec'', Child ''containers'']"
  by (simp add: NewMyJsonPathMust_def isKeyChar_def)

lemma parse_container_ports:
  "NewMyJsonPathMust (''spec.template.spec.containers'' @ ''['' @ showNat i @ '']'' @ ''.ports'') =
   Some [Child ''spec'', Child ''template'', Child ''spec'', Child ''containers'', Nth i, Child ''ports'']"
  by (simp add: NewMyJsonPathMust_def isKeyChar_def takeWhile_showNat dropWhile_showNat showNat_nonempty digitsToNat_showNat)

lemma parse_container_limits:
  "NewMyJsonPathMust (''spec.template.spec.containers'' @ ''['' @ showNat i @ '']'' @ ''resources.limits'') = None"
  by (simp add: NewMyJsonPathMust_def isKeyChar_def takeWhile_showNat dropWhile_showNat showNat_nonempty digitsToNat_showNat)

lemma parse_container_requests:
  "NewMyJsonPathMust (''spec.template.spec.containers'' @ ''['' @ showNat i @ '']'' @ ''resources.requests'') = None"
  by (simp add: NewMyJsonPathMust_def isKeyChar_def takeWhile_showNat dropWhile_showNat showNat_nonempty digitsToNat_showNat)

lemma parse_limits: "NewMyJsonPathMust ''spec.limits'' = Some [Child ''spec'', Child ''limits'']"
  by (simp add: NewMyJsonPathMust_def isKeyChar_def)

lemma parse_limit_default:
  "NewMyJsonPathMust (''spec.limits'' @ ''['' @ showNat i @ '']'' @ ''.default'') =
   Some [Child ''spec'', Child ''limits'', Nth i, Child ''default'']"
  by (simp add: NewMyJsonPathMust_def isKeyChar_def takeWhile_showNat dropWhile_showNat showNat_nonempty digitsToNat_showNat)

lemma parse_limit_defaultRequest:
  "NewMyJsonPathMust (''spec.limits'' @ ''['' @ showNat i @ '']'' @ ''.defaultRequest'') =
   Some [Child ''spec'', Child ''limits'', Nth i, Child ''defaultRequest'']"
  by (simp add: NewMyJsonPathMust_def isKeyChar_def takeWhile_showNat dropWhile_showNat showNat_nonempty digitsToNat_showNat)

section \<open>Reading and writing at a path\<close>

lemma getPath_append:
  "getPath (p @ q) v = (case getPath p v of None \<Rightarrow> None | Some c \<Rightarrow> getPath q c)"
  by (induction p arbitrary: v) (auto split: option.splits)

lemma modify_append: "modify (p @ q) g v = modify p (modify q g) v"
proof (induction p g v rule: modify.induct)
  case (2 k fs g kvs)
  then show ?case by (auto split: option.splits)
qed auto

lemma modify_absent: "getPath p v = None \<Longrightarrow> modify p g v = v"
proof (induction p g v rule: modify.induct)
  case (2 k fs g kvs)
  then show ?case by (auto split: option.splits simp: AList.update_triv)
qed (auto split: if_splits)

lemma getPath_modify_same: "getPath p (modify p g v) = map_option g (getPath p v)"
proof (induction p g v rule: modify.induct)
  case (2 k fs g kvs)
  then show ?case by (auto split: option.splits simp: AList.update_conv')
qed auto

lemma modify_const: "getPath p v = Some c \<Longrightarrow> modify p g v = modify p (\<lambda>_. g c) v"
proof (induction p g v rule: modify.induct)
  case (2 k fs g kvs)
  then show ?case by (auto split: option.splits)
qed (auto split: if_splits)

lemma modify_modify: "modify p g2 (modify p g1 v) = modify p (\<lambda>x. g2 (g1 x)) v"
proof (induction p g1 v rule: modify.induct)
  case (2 k fs g kvs)
  then show ?case by (auto split: option.splits simp: AList.update_conv')
qed auto

lemma step_modify_other: "a \<noteq> b \<Longrightarrow> step b (modify (a # p) g c) = step b c"
proof (cases a)
  case (Child k)
  assume ab: "a \<noteq> b"
  show ?thesis
  proof (cases c)
    case (JMap kvs)
    with Child ab show ?thesis
      by (cases b) (auto split: option.splits simp: AList.update_conv')
  qed (use Child in auto)
next
  case (Nth i)
  assume ab: "a \<noteq> b"
  show ?thesis
  proof (cases c)
    case (JList xs)
    with Nth ab show ?thesis by (cases b) auto
  qed (use Nth in auto)
qed

lemma getPath_modify_prefix:
  "getPath r (modify (r @ p) g v) = map_option (modify p g) (getPath r v)"
  by (simp add: modify_append getPath_modify_same)

lemma getPath_modify_diverge:
  assumes "a \<noteq> b"
  shows "getPath (r @ b # q) (modify (r @ a # p) g v) = getPath (r @ b # q) v"
proof (cases "getPath r v")
  case None
  then have "getPath (r @ a # p) v = None" by (simp add: getPath_append)
  then show ?thesis by (simp add: modify_absent)
next
  case (Some c)
  have "getPath r (modify (r @ a # p) g v) = Some (modify (a # p) g c)"
    using Some by (simp add: getPath_modify_prefix)
  then show ?thesis
    using Some assms by (simp add: getPath_append [of r] step_modify_other)
qed

lemma fixPorts_portsAt:
  "fixPorts True p v = (case NewMyJsonPathMust p of None \<Rightarrow> v | Some fs \<Rightarrow> portsAt fs v)"
  by (cases "NewMyJsonPathMust p") (simp_all add: fixPorts_def portsAt_def)

lemma fixStringType_stringAt:
  "fixStringType True p k v = (case NewMyJsonPathMust p of None \<Rightarrow> v | Some fs \<Rightarrow> stringAt fs k v)"
  by (cases "NewMyJsonPathMust p") (simp_all add: fixStringType_def stringAt_def)

lemma fixStringType_off: "fixStringType False p k v = v"
  by (simp add: fixStringType_def)

lemma modify_id: "getPath p v = Some c \<Longrightarrow> modify p (\<lambda>_. c) v = v"
proof (induction p "\<lambda>_::json. c" v rule: modify.induct)
  case (2 k fs kvs)
  then show ?case by (auto split: option.splits simp: AList.update_triv)
qed (auto split: if_splits)

lemma GetFirstListOfMaps_append:
  "getPath p v = Some c \<Longrightarrow> GetFirstListOfMaps (p @ q) v = GetFirstListOfMaps q c"
  by (simp add: GetFirstListOfMaps_def getPath_append)

lemma GetFirstMap_append:
  "getPath p v = Some c \<Longrightarrow> GetFirstMap (p @ q) v = GetFirstMap q c"
  by (simp add: GetFirstMap_def getPath_append)

lemma portsAt_append: "portsAt (p @ q) v = modify p (portsAt q) v"
proof (cases "getPath p v")
  case None
  then have "GetFirstListOfMaps (p @ q) v = None"
    by (simp add: GetFirstListOfMaps_def getPath_append)
  with None show ?thesis by (simp add: portsAt_def modify_absent)
next
  case (Some c)
  have r: "modify p (portsAt q) v = modify p (\<lambda>_. portsAt q c) v"
    using Some by (rule modify_const)
  show ?thesis
  proof (cases "GetFirstListOfMaps q c")
    case None
    then have "portsAt q c = c" by (simp add: portsAt_def)
    moreover have "portsAt (p @ q) v = v"
      using None Some by (simp add: portsAt_def GetFirstListOfMaps_append)
    ultimately show ?thesis using r Some by (simp add: modify_id)
  next
    case (Some ports)
    let ?X = "\<lambda>_::json. JList (map (\<lambda>port. JMap (fixPort port)) ports)"
    have "portsAt (p @ q) v = modify p (modify q ?X) v"
      using Some \<open>getPath p v = Some c\<close>
      by (simp add: portsAt_def GetFirstListOfMaps_append modify_append)
    also have "\<dots> = modify p (\<lambda>_. modify q ?X c) v"
      using \<open>getPath p v = Some c\<close> by (rule modify_const)
    also have "modify q ?X c = portsAt q c"
      using Some by (simp add: portsAt_def)
    finally show ?thesis using r by simp
  qed
qed

lemma getPath_portsAt_diverge:
  "a \<noteq> b \<Longrightarrow> getPath (r @ b # q) (portsAt (r @ a # p) v) = getPath (r @ b # q) v"
  by (simp add: portsAt_def getPath_modify_diverge split: option.splits)

lemma getPath_stringAt_diverge:
  "a \<noteq> b \<Longrightarrow> getPath (r @ b # q) (stringAt (r @ a # p) k v) = getPath (r @ b # q) v"
  by (simp add: stringAt_def getPath_modify_diverge split: option.splits json.splits)

lemma foldl_modify_nth:
  assumes "getPath P v = Some (JList xs)" and "n \<le> length xs"
  shows "foldl (\<lambda>acc i. modify (P @ [Nth i]) h acc) v [0 ..< n] =
         modify P (\<lambda>_. JList (map h (take n xs) @ drop n xs)) v"
  using assms(2)
proof (induction n)
  case 0
  show ?case using assms(1) by (simp add: modify_id)
next
  case (Suc n)
  let ?ys = "map h (take n xs) @ drop n xs"
  have n: "n < length xs" using Suc.prems by simp
  have ys_n: "?ys ! n = xs ! n" using n by (simp add: nth_append)
  have upd: "?ys[n := h (xs ! n)] = map h (take (Suc n) xs) @ drop (Suc n) xs"
    using n by (simp add: list_update_append take_Suc_conv_app_nth upd_conv_take_nth_drop
                          Cons_nth_drop_Suc [symmetric])
  have "foldl (\<lambda>acc i. modify (P @ [Nth i]) h acc) v [0 ..< Suc n] =
        modify (P @ [Nth n]) h (modify P (\<lambda>_. JList ?ys) v)"
    using Suc by simp
  also have "\<dots> = modify P (\<lambda>x. modify [Nth n] h (JList ?ys)) v"
    by (simp add: modify_append modify_modify)
  also have "modify [Nth n] h (JList ?ys) = JList (?ys[n := h (xs ! n)])"
    using n ys_n by simp
  finally show ?case using upd by simp
qed

lemma destMaps_Some_iff: "(\<exists>ms. destMaps xs = Some ms) \<longleftrightarrow> list_all isMap xs"
proof (induction xs)
  case (Cons x xs)
  then show ?case by (cases x) (auto split: option.splits)
qed simp

lemma destMaps_map: "destMaps xs = Some ms \<Longrightarrow> xs = map JMap ms"
proof (induction xs arbitrary: ms)
  case (Cons x xs)
  then show ?case by (cases x) (auto split: option.splits)
qed simp

lemma destMaps_length: "destMaps xs = Some ms \<Longrightarrow> length ms = length xs"
  by (auto dest: destMaps_map)

lemma fixContainer_ports:
  "fixContainer True f2 (''spec.template.spec.containers'' @ ''['' @ showNat i @ '']'') v =
   modify (containersPath @ [Nth i]) (portsAt [Child ''ports'']) v"
proof -
  have "fixContainer True f2 (''spec.template.spec.containers'' @ ''['' @ showNat i @ '']'') v =
        portsAt (containersPath @ [Nth i] @ [Child ''ports'']) v"
    using parse_container_ports [of i] parse_container_limits [of i] parse_container_requests [of i]
    by (cases f2) (simp_all add: fixContainer_def fixPorts_portsAt fixStringType_stringAt fixStringType_off)
  then show ?thesis by (simp only: portsAt_append append_assoc [symmetric])
qed

lemma fixContainers_none:
  "GetFirstListOfMaps containersPath v = None \<Longrightarrow>
   fixContainers True f2 ''spec.template.spec.containers'' v = v"
  using parse_containers by (simp add: fixContainers_def)

lemma fixContainers_some:
  assumes "getPath containersPath v = Some (JList cs)" and "list_all isMap cs"
  shows "fixContainers True f2 ''spec.template.spec.containers'' v =
         modify containersPath (\<lambda>_. JList (map (portsAt [Child ''ports'']) cs)) v"
proof -
  obtain ms where ms: "destMaps cs = Some ms" using assms(2) destMaps_Some_iff by blast
  then have g: "GetFirstListOfMaps containersPath v = Some ms"
    using assms(1) by (simp add: GetFirstListOfMaps_def)
  have "fixContainers True f2 ''spec.template.spec.containers'' v =
        foldl (\<lambda>acc i. modify (containersPath @ [Nth i]) (portsAt [Child ''ports'']) acc) v [0 ..< length cs]"
    using g parse_containers destMaps_length [OF ms]
    by (simp add: fixContainers_def fixContainer_ports del: append.simps)
  also have "\<dots> = modify containersPath (\<lambda>_. JList (map (portsAt [Child ''ports'']) (take (length cs) cs) @ drop (length cs) cs)) v"
    using assms(1) by (rule foldl_modify_nth) simp
  finally show ?thesis by simp
qed

lemma foldl_frame:
  "(\<And>acc i. getPath q (f acc i) = getPath q acc) \<Longrightarrow> getPath q (foldl f v is) = getPath q v"
  by (induction "is" arbitrary: v) simp_all

lemma fixStringType_limit_frame:
  assumes "b \<noteq> Child ''limits''"
  shows "getPath (Child ''spec'' # b # q)
           (fixStringType f2 (''spec.limits'' @ ''['' @ showNat i @ '']'' @ ''.defaultRequest'') ''cpu''
              (fixStringType f2 (''spec.limits'' @ ''['' @ showNat i @ '']'' @ ''.default'') ''cpu'' acc)) =
         getPath (Child ''spec'' # b # q) acc"
proof (cases f2)
  case False
  then show ?thesis by (simp add: fixStringType_off)
next
  case True
  have d: "\<And>p k w. getPath ([Child ''spec''] @ b # q) (stringAt ([Child ''spec''] @ Child ''limits'' # p) k w) =
           getPath ([Child ''spec''] @ b # q) w"
    using assms by (intro getPath_stringAt_diverge) simp
  show ?thesis
    using True parse_limit_default [of i] parse_limit_defaultRequest [of i] d
    by (simp add: fixStringType_stringAt)
qed

lemma fixLimits_frame:
  assumes "b \<noteq> Child ''limits''"
  shows "getPath (Child ''spec'' # b # q) (fixLimits f2 ''spec.limits'' v) = getPath (Child ''spec'' # b # q) v"
proof (cases "GetFirstListOfMaps [Child ''spec'', Child ''limits''] v")
  case None
  then show ?thesis using parse_limits by (simp add: fixLimits_def)
next
  case (Some ls)
  let ?F = "\<lambda>acc i.
              fixStringType f2 (''spec.limits'' @ ''['' @ showNat i @ '']'' @ ''.defaultRequest'') ''cpu''
                (fixStringType f2 (''spec.limits'' @ ''['' @ showNat i @ '']'' @ ''.default'') ''cpu'' acc)"
  have "fixLimits f2 ''spec.limits'' v = foldl ?F v [0 ..< length ls]"
    using Some parse_limits by (simp add: fixLimits_def)
  moreover have "getPath (Child ''spec'' # b # q) (foldl ?F v [0 ..< length ls]) =
                 getPath (Child ''spec'' # b # q) v"
    by (rule foldl_frame) (rule fixStringType_limit_frame [OF assms])
  ultimately show ?thesis by simp
qed

lemma FixObjectForPatch_unfold:
  "FixObjectForPatch k v =
   fixLimits (LessThan (ServerVersion k) v1_1000) ''spec.limits''
     (fixPorts True ''spec.ports''
        (fixContainers True (LessThan (ServerVersion k) v1_1000) ''spec.template.spec.containers'' v))"
  by (simp add: FixObjectForPatch_def Clone_def Let_def)

lemma GetFirstListOfMaps_SomeD:
  "GetFirstListOfMaps fs v = Some ms \<Longrightarrow> \<exists>xs. getPath fs v = Some (JList xs) \<and> destMaps xs = Some ms"
  by (auto simp: GetFirstListOfMaps_def split: option.splits json.splits)

lemma fixContainers_frame:
  assumes "b \<noteq> Child ''template''"
  shows "getPath (Child ''spec'' # b # q) (fixContainers True f2 ''spec.template.spec.containers'' v) =
         getPath (Child ''spec'' # b # q) v"
proof (cases "GetFirstListOfMaps containersPath v")
  case None
  then show ?thesis by (simp add: fixContainers_none)
next
  case (Some ms)
  then obtain cs where cs: "getPath containersPath v = Some (JList cs)" "destMaps cs = Some ms"
    using GetFirstListOfMaps_SomeD by blast
  then have "list_all isMap cs" using destMaps_Some_iff by blast
  then have "fixContainers True f2 ''spec.template.spec.containers'' v =
             modify ([Child ''spec''] @ Child ''template'' # [Child ''spec'', Child ''containers''])
               (\<lambda>_. JList (map (portsAt [Child ''ports'']) cs)) v"
    using cs(1) by (simp add: fixContainers_some)
  moreover have "getPath ([Child ''spec''] @ b # q)
       (modify ([Child ''spec''] @ Child ''template'' # [Child ''spec'', Child ''containers''])
               (\<lambda>_. JList (map (portsAt [Child ''ports'']) cs)) v) = getPath ([Child ''spec''] @ b # q) v"
    using assms by (intro getPath_modify_diverge) simp
  ultimately show ?thesis by simp
qed

lemma getPath_portsAt_same:
  assumes "getPath fs v = Some (JList ps)" and "destMaps ps = Some ms"
  shows "getPath fs (portsAt fs v) = Some (JList (map (\<lambda>port. JMap (fixPort port)) ms))"
  using assms by (simp add: portsAt_def GetFirstListOfMaps_def getPath_modify_same)

lemma service_ports_fixed:
  assumes "getPath [Child ''spec'', Child ''ports''] v = Some (JList ps)" and "destMaps ps = Some ms"
  shows "getPath [Child ''spec'', Child ''ports''] (FixObjectForPatch k v) =
         Some (JList (map (\<lambda>port. JMap (fixPort port)) ms))"
proof -
  let ?f2 = "LessThan (ServerVersion k) v1_1000"
  let ?v1 = "fixContainers True ?f2 ''spec.template.spec.containers'' v"
  have 1: "getPath [Child ''spec'', Child ''ports''] ?v1 = Some (JList ps)"
    using assms(1) fixContainers_frame [of "Child ''ports''" "[]" ?f2 v] by simp
  have 2: "getPath [Child ''spec'', Child ''ports''] (fixPorts True ''spec.ports'' ?v1) =
           Some (JList (map (\<lambda>port. JMap (fixPort port)) ms))"
    using getPath_portsAt_same [OF 1 assms(2)] parse_service_ports by (simp add: fixPorts_portsAt)
  show ?thesis
    using 2 fixLimits_frame [of "Child ''ports''" "[]" ?f2] by (simp add: FixObjectForPatch_unfold)
qed

lemma container_ports_fixed:
  assumes "getPath containersPath v = Some (JList cs)" and "list_all isMap cs" and "i < length cs"
    and "getPath [Child ''ports''] (cs ! i) = Some (JList ps)" and "destMaps ps = Some ms"
  shows "getPath (containersPath @ [Nth i, Child ''ports'']) (FixObjectForPatch k v) =
         Some (JList (map (\<lambda>port. JMap (fixPort port)) ms))"
proof -
  let ?f2 = "LessThan (ServerVersion k) v1_1000"
  let ?v1 = "fixContainers True ?f2 ''spec.template.spec.containers'' v"
  let ?q = "[Child ''spec'', Child ''containers'', Nth i, Child ''ports'']"
  have v1: "?v1 = modify containersPath (\<lambda>_. JList (map (portsAt [Child ''ports'']) cs)) v"
    using assms(1,2) by (rule fixContainers_some)
  have "getPath containersPath ?v1 = Some (JList (map (portsAt [Child ''ports'']) cs))"
    unfolding v1 using assms(1) by (simp only: getPath_modify_same option.map)
  then have "getPath (containersPath @ [Nth i, Child ''ports'']) ?v1 =
             getPath [Child ''ports''] (portsAt [Child ''ports''] (cs ! i))"
    using assms(3) by (simp only: getPath_append) simp
  also have "\<dots> = Some (JList (map (\<lambda>port. JMap (fixPort port)) ms))"
    using assms(4,5) by (rule getPath_portsAt_same)
  finally have 1: "getPath (Child ''spec'' # Child ''template'' # ?q) ?v1 =
                   Some (JList (map (\<lambda>port. JMap (fixPort port)) ms))" by simp
  have "getPath ([Child ''spec''] @ Child ''template'' # ?q) (portsAt ([Child ''spec''] @ Child ''ports'' # []) ?v1) =
        getPath ([Child ''spec''] @ Child ''template'' # ?q) ?v1"
    by (intro getPath_portsAt_diverge) simp
  then have 2: "getPath (Child ''spec'' # Child ''template'' # ?q) (fixPorts True ''spec.ports'' ?v1) =
           Some (JList (map (\<lambda>port. JMap (fixPort port)) ms))"
    using 1 parse_service_ports by (simp add: fixPorts_portsAt)
  have "getPath (Child ''spec'' # Child ''template'' # ?q) (FixObjectForPatch k v) =
        Some (JList (map (\<lambda>port. JMap (fixPort port)) ms))"
    unfolding FixObjectForPatch_unfold
    using 2 fixLimits_frame [of "Child ''template''" ?q ?f2] by simp
  then show ?thesis by simp
qed

lemma portDefaulted_fixPort: "portDefaulted (JMap m) (Some (JMap (fixPort m)))"
  by (auto simp: portDefaulted_def fixPort_def AList.update_conv' split: option.splits)

lemma ports_entry:
  assumes "getPath fs r = Some (JList (map (\<lambda>port. JMap (fixPort port)) ms))"
    and "destMaps ps = Some ms" and "j < length ps"
  shows "portDefaulted (ps ! j) (getPath (fs @ [Nth j]) r)"
proof -
  have ps: "ps = map JMap ms" using assms(2) by (rule destMaps_map)
  then have j: "j < length ms" using assms(3) by simp
  have "getPath (fs @ [Nth j]) r = Some (JMap (fixPort (ms ! j)))"
    using assms(1) j by (simp add: getPath_append)
  moreover have "ps ! j = JMap (ms ! j)" using ps j by simp
  ultimately show ?thesis by (simp add: portDefaulted_fixPort)
qed

text \<open>
  C5. Whatever the server version, \<^verbatim>\<open>FixObjectForPatch\<close> sets the protocol of the port
  entries that lack one to \<^verbatim>\<open>TCP\<close> and leaves the entries that have one as they are:
  in the service port list \<^verbatim>\<open>spec.ports\<close>, and in the port list of every container of
  \<^verbatim>\<open>spec.template.spec.containers\<close>. The port lists and the container list are lists
  of maps, as \<^verbatim>\<open>GetFirstListOfMaps\<close> reads them.
\<close>

theorem FixObjectForPatch_port_protocol:
  "(getPath [Child ''spec'', Child ''ports''] obj = Some (JList ps) \<and> list_all isMap ps \<and> j < length ps \<longrightarrow>
      portDefaulted (ps ! j)
        (getPath [Child ''spec'', Child ''ports'', Nth j] (FixObjectForPatch k obj))) \<and>
   (getPath [Child ''spec'', Child ''template'', Child ''spec'', Child ''containers''] obj = Some (JList cs) \<and>
    list_all isMap cs \<and> i < length cs \<and>
    getPath [Child ''ports''] (cs ! i) = Some (JList ps) \<and> list_all isMap ps \<and> j < length ps \<longrightarrow>
      portDefaulted (ps ! j)
        (getPath [Child ''spec'', Child ''template'', Child ''spec'', Child ''containers'',
                  Nth i, Child ''ports'', Nth j] (FixObjectForPatch k obj)))"
proof (intro conjI impI)
  assume a: "getPath [Child ''spec'', Child ''ports''] obj = Some (JList ps) \<and> list_all isMap ps \<and> j < length ps"
  then obtain ms where ms: "destMaps ps = Some ms" using destMaps_Some_iff by blast
  have "getPath [Child ''spec'', Child ''ports''] (FixObjectForPatch k obj) =
        Some (JList (map (\<lambda>port. JMap (fixPort port)) ms))"
    using a ms by (intro service_ports_fixed) auto
  then have "portDefaulted (ps ! j) (getPath ([Child ''spec'', Child ''ports''] @ [Nth j]) (FixObjectForPatch k obj))"
    using ms a by (intro ports_entry) auto
  then show "portDefaulted (ps ! j)
        (getPath [Child ''spec'', Child ''ports'', Nth j] (FixObjectForPatch k obj))" by simp
next
  assume a: "getPath [Child ''spec'', Child ''template'', Child ''spec'', Child ''containers''] obj = Some (JList cs) \<and>
    list_all isMap cs \<and> i < length cs \<and>
    getPath [Child ''ports''] (cs ! i) = Some (JList ps) \<and> list_all isMap ps \<and> j < length ps"
  then obtain ms where ms: "destMaps ps = Some ms" using destMaps_Some_iff by blast
  have "getPath (containersPath @ [Nth i, Child ''ports'']) (FixObjectForPatch k obj) =
        Some (JList (map (\<lambda>port. JMap (fixPort port)) ms))"
    using a ms by (intro container_ports_fixed [where cs = cs and ps = ps]) auto
  then have "portDefaulted (ps ! j)
       (getPath ((containersPath @ [Nth i, Child ''ports'']) @ [Nth j]) (FixObjectForPatch k obj))"
    using ms a by (intro ports_entry) auto
  then show "portDefaulted (ps ! j)
        (getPath [Child ''spec'', Child ''template'', Child ''spec'', Child ''containers'',
                  Nth i, Child ''ports'', Nth j] (FixObjectForPatch k obj))" by simp
qed

theorem FixObjectForPatch_port_protocol_witness:
  "portDefaulted (JMap [(''port'', JInt 80)])
     (getPath [Child ''spec'', Child ''ports'', Nth 0] (FixObjectForPatch cluster_1_25 service0)) \<and>
   portDefaulted (JMap [(''port'', JInt 53), (''protocol'', JStr ''UDP'')])
     (getPath [Child ''spec'', Child ''ports'', Nth 1] (FixObjectForPatch cluster_1_25 service0)) \<and>
   portDefaulted (JMap [(''containerPort'', JInt 8080)])
     (getPath [Child ''spec'', Child ''template'', Child ''spec'', Child ''containers'',
               Nth 0, Child ''ports'', Nth 0] (FixObjectForPatch cluster_1_25 deployment0))"
proof -
  let ?ps = "[JMap [(''port'', JInt 80)], JMap [(''port'', JInt 53), (''protocol'', JStr ''UDP'')]]"
  let ?c = "JMap [(''name'', JStr ''web''),
             (''ports'', JList [JMap [(''containerPort'', JInt 8080)]]),
             (''resources'', JMap [(''limits'', JMap [(''cpu'', JInt 1)]),
                                   (''requests'', JMap [(''cpu'', JInt 1)])])]"
  have s: "getPath [Child ''spec'', Child ''ports''] service0 = Some (JList ?ps) \<and> list_all isMap ?ps"
    by (simp add: service0_def)
  have d: "getPath [Child ''spec'', Child ''template'', Child ''spec'', Child ''containers''] deployment0 = Some (JList [?c]) \<and>
           list_all isMap [?c] \<and> getPath [Child ''ports''] ([?c] ! 0) = Some (JList [JMap [(''containerPort'', JInt 8080)]]) \<and>
           list_all isMap [JMap [(''containerPort'', JInt 8080)]]"
    by (simp add: deployment0_def)
  show ?thesis
    using s d
      FixObjectForPatch_port_protocol [of service0 ?ps 0 cluster_1_25 "[]" 0]
      FixObjectForPatch_port_protocol [of service0 ?ps 1 cluster_1_25 "[]" 0]
      FixObjectForPatch_port_protocol [of deployment0 "[JMap [(''containerPort'', JInt 8080)]]" 0 cluster_1_25 "[?c]" 0]
    by simp
qed

lemma foldl_keep: "foldl (\<lambda>acc i. acc) v is = v"
  by (induction "is") simp_all

lemma fixLimits_off: "fixLimits False p v = v"
  by (simp add: fixLimits_def fixStringType_off foldl_keep split: option.splits)

lemma container_resources_unchanged:
  "getPath (containersPath @ Nth i # Child ''resources'' # q) (FixObjectForPatch k v) =
   getPath (containersPath @ Nth i # Child ''resources'' # q) v"
proof -
  let ?f2 = "LessThan (ServerVersion k) v1_1000"
  let ?v1 = "fixContainers True ?f2 ''spec.template.spec.containers'' v"
  let ?t = "[Child ''spec'', Child ''containers'', Nth i, Child ''resources''] @ q"
  have 1: "getPath (containersPath @ Nth i # Child ''resources'' # q) ?v1 =
           getPath (containersPath @ Nth i # Child ''resources'' # q) v"
  proof (cases "GetFirstListOfMaps containersPath v")
    case None
    then show ?thesis by (simp only: fixContainers_none)
  next
    case (Some ms)
    then obtain cs where cs: "getPath containersPath v = Some (JList cs)" "destMaps cs = Some ms"
      using GetFirstListOfMaps_SomeD by blast
    then have "list_all isMap cs" using destMaps_Some_iff by blast
    then have v1: "?v1 = modify containersPath (\<lambda>_. JList (map (portsAt [Child ''ports'']) cs)) v"
      using cs(1) by (simp only: fixContainers_some)
    have g: "getPath containersPath ?v1 = Some (JList (map (portsAt [Child ''ports'']) cs))"
      unfolding v1 using cs(1) by (simp only: getPath_modify_same option.map)
    show ?thesis
    proof (cases "i < length cs")
      case True
      have "getPath ([] @ Child ''resources'' # q) (portsAt ([] @ Child ''ports'' # []) (cs ! i)) =
            getPath ([] @ Child ''resources'' # q) (cs ! i)"
        by (intro getPath_portsAt_diverge) simp
      then show ?thesis
        using True g cs(1) by (simp only: getPath_append [of containersPath]) simp
    next
      case False
      then show ?thesis
        using g cs(1) by (simp only: getPath_append [of containersPath]) simp
    qed
  qed
  have "getPath ([Child ''spec''] @ Child ''template'' # ?t) (portsAt ([Child ''spec''] @ Child ''ports'' # []) ?v1) =
        getPath ([Child ''spec''] @ Child ''template'' # ?t) ?v1"
    by (intro getPath_portsAt_diverge) simp
  then have 2: "getPath (Child ''spec'' # Child ''template'' # ?t) (fixPorts True ''spec.ports'' ?v1) =
                getPath (Child ''spec'' # Child ''template'' # ?t) v"
    using 1 parse_service_ports by (simp add: fixPorts_portsAt)
  have "getPath (Child ''spec'' # Child ''template'' # ?t) (FixObjectForPatch k v) =
        getPath (Child ''spec'' # Child ''template'' # ?t) v"
    unfolding FixObjectForPatch_unfold
    using 2 fixLimits_frame [of "Child ''template''" ?t ?f2] by simp
  then show ?thesis by simp
qed

lemma limits_unchanged:
  assumes "\<not> LessThan (ServerVersion k) v1_1000"
  shows "getPath (Child ''spec'' # Child ''limits'' # q) (FixObjectForPatch k v) =
         getPath (Child ''spec'' # Child ''limits'' # q) v"
proof -
  let ?v1 = "fixContainers True False ''spec.template.spec.containers'' v"
  have "getPath ([Child ''spec''] @ Child ''limits'' # q) (portsAt ([Child ''spec''] @ Child ''ports'' # []) ?v1) =
        getPath ([Child ''spec''] @ Child ''limits'' # q) ?v1"
    by (intro getPath_portsAt_diverge) simp
  then have "getPath (Child ''spec'' # Child ''limits'' # q) (fixPorts True ''spec.ports'' ?v1) =
             getPath (Child ''spec'' # Child ''limits'' # q) v"
    using parse_service_ports fixContainers_frame [of "Child ''limits''" q False v]
    by (simp add: fixPorts_portsAt)
  then show ?thesis using assms by (simp add: FixObjectForPatch_unfold fixLimits_off)
qed

lemma pass_through:
  assumes "\<not> LessThan (ServerVersion k) v1_1000"
    and "GetFirstListOfMaps [Child ''spec'', Child ''ports''] v = None"
    and "GetFirstListOfMaps containersPath v = None"
  shows "FixObjectForPatch k v = v"
  using assms parse_service_ports
  by (simp add: FixObjectForPatch_unfold fixLimits_off fixContainers_none fixPorts_portsAt portsAt_def)

lemma hasProtocol_fixPort: "hasProtocol (JMap (fixPort m))"
  by (simp add: fixPort_def AList.update_conv' split: option.splits)

text \<open>
  C4, as the code has it. Only the type-conversion fixup is gated by the server version: on
  a server that is not older than 1.1000 the CPU quantities pass through unmodified
  (everything under \<^verbatim>\<open>spec.limits\<close> and under the \<^verbatim>\<open>resources\<close> of a container), and an
  object with no port list and no container list is returned as it is. The defaults fixup
  is not gated: at every server version every entry of the service port list has a
  protocol afterwards.
\<close>

theorem FixObjectForPatch_version_gates:
  "(\<not> LessThan (ServerVersion k) v1_1000 \<longrightarrow>
      getPath (Child ''spec'' # Child ''limits'' # q) (FixObjectForPatch k obj) =
        getPath (Child ''spec'' # Child ''limits'' # q) obj \<and>
      getPath ([Child ''spec'', Child ''template'', Child ''spec'', Child ''containers'',
                Nth i, Child ''resources''] @ q) (FixObjectForPatch k obj) =
        getPath ([Child ''spec'', Child ''template'', Child ''spec'', Child ''containers'',
                  Nth i, Child ''resources''] @ q) obj \<and>
      (GetFirstListOfMaps [Child ''spec'', Child ''ports''] obj = None \<and>
       GetFirstListOfMaps [Child ''spec'', Child ''template'', Child ''spec'', Child ''containers''] obj = None \<longrightarrow>
         FixObjectForPatch k obj = obj)) \<and>
   (getPath [Child ''spec'', Child ''ports''] obj = Some (JList ps) \<and> list_all isMap ps \<longrightarrow>
      (\<exists>ps'. getPath [Child ''spec'', Child ''ports''] (FixObjectForPatch k obj) = Some (JList ps') \<and>
             length ps' = length ps \<and> list_all hasProtocol ps'))"
proof (intro conjI impI)
  assume "\<not> LessThan (ServerVersion k) v1_1000"
  then show "getPath (Child ''spec'' # Child ''limits'' # q) (FixObjectForPatch k obj) =
        getPath (Child ''spec'' # Child ''limits'' # q) obj"
    by (rule limits_unchanged)
next
  show "getPath ([Child ''spec'', Child ''template'', Child ''spec'', Child ''containers'',
                Nth i, Child ''resources''] @ q) (FixObjectForPatch k obj) =
        getPath ([Child ''spec'', Child ''template'', Child ''spec'', Child ''containers'',
                  Nth i, Child ''resources''] @ q) obj"
    using container_resources_unchanged [of i q k obj] by simp
next
  assume "\<not> LessThan (ServerVersion k) v1_1000"
    and "GetFirstListOfMaps [Child ''spec'', Child ''ports''] obj = None \<and>
       GetFirstListOfMaps [Child ''spec'', Child ''template'', Child ''spec'', Child ''containers''] obj = None"
  then show "FixObjectForPatch k obj = obj" by (intro pass_through) auto
next
  assume a: "getPath [Child ''spec'', Child ''ports''] obj = Some (JList ps) \<and> list_all isMap ps"
  then obtain ms where ms: "destMaps ps = Some ms" using destMaps_Some_iff by blast
  have "getPath [Child ''spec'', Child ''ports''] (FixObjectForPatch k obj) =
        Some (JList (map (\<lambda>port. JMap (fixPort port)) ms))"
    using a ms by (intro service_ports_fixed) auto
  moreover have "length (map (\<lambda>port. JMap (fixPort port)) ms) = length ps"
    using destMaps_length [OF ms] by simp
  moreover have "list_all hasProtocol (map (\<lambda>port. JMap (fixPort port)) ms)"
    by (induction ms) (simp_all add: hasProtocol_fixPort del: hasProtocol.simps)
  ultimately show "\<exists>ps'. getPath [Child ''spec'', Child ''ports''] (FixObjectForPatch k obj) = Some (JList ps') \<and>
             length ps' = length ps \<and> list_all hasProtocol ps'" by blast
qed

theorem FixObjectForPatch_version_gates_witness:
  "\<not> LessThan (ServerVersion cluster_1_1000) v1_1000 \<and>
   getPath [Child ''spec'', Child ''limits'', Nth 0, Child ''default'', Child ''cpu'']
     (FixObjectForPatch cluster_1_1000 limitRange0) = Some (JInt 2) \<and>
   FixObjectForPatch cluster_1_1000 limitRange0 = limitRange0 \<and>
   (\<exists>ps'. getPath [Child ''spec'', Child ''ports''] (FixObjectForPatch cluster_1_1000 service0) = Some (JList ps') \<and>
          length ps' = 2 \<and> list_all hasProtocol ps')"
proof -
  have v: "\<not> LessThan (ServerVersion cluster_1_1000) v1_1000"
    by (simp add: cluster_1_1000_def v1_1000_def LessThan_def Compare_def)
  have l: "getPath [Child ''spec'', Child ''limits'', Nth 0, Child ''default'', Child ''cpu''] limitRange0 = Some (JInt 2)"
    by (simp add: limitRange0_def)
  have n: "GetFirstListOfMaps [Child ''spec'', Child ''ports''] limitRange0 = None \<and>
       GetFirstListOfMaps [Child ''spec'', Child ''template'', Child ''spec'', Child ''containers''] limitRange0 = None"
    by (simp add: limitRange0_def GetFirstListOfMaps_def)
  have s: "getPath [Child ''spec'', Child ''ports''] service0 =
             Some (JList [JMap [(''port'', JInt 80)], JMap [(''port'', JInt 53), (''protocol'', JStr ''UDP'')]]) \<and>
           list_all isMap [JMap [(''port'', JInt 80)], JMap [(''port'', JInt 53), (''protocol'', JStr ''UDP'')]]"
    by (simp add: service0_def)
  let ?ps = "[JMap [(''port'', JInt 80)], JMap [(''port'', JInt 53), (''protocol'', JStr ''UDP'')]]"
  have "getPath (Child ''spec'' # Child ''limits'' # [Nth 0, Child ''default'', Child ''cpu''])
          (FixObjectForPatch cluster_1_1000 limitRange0) =
        getPath (Child ''spec'' # Child ''limits'' # [Nth 0, Child ''default'', Child ''cpu'']) limitRange0"
    using v FixObjectForPatch_version_gates
            [of cluster_1_1000 "[Nth 0, Child ''default'', Child ''cpu'']" limitRange0 0 ?ps]
    by blast
  with l have 1: "getPath [Child ''spec'', Child ''limits'', Nth 0, Child ''default'', Child ''cpu'']
     (FixObjectForPatch cluster_1_1000 limitRange0) = Some (JInt 2)"
    by simp
  have 2: "FixObjectForPatch cluster_1_1000 limitRange0 = limitRange0"
    using v n FixObjectForPatch_version_gates
            [of cluster_1_1000 "[Nth 0, Child ''default'', Child ''cpu'']" limitRange0 0 ?ps]
    by blast
  have "\<exists>ps'. getPath [Child ''spec'', Child ''ports''] (FixObjectForPatch cluster_1_1000 service0) = Some (JList ps') \<and>
          length ps' = length ?ps \<and> list_all hasProtocol ps'"
    using s FixObjectForPatch_version_gates [of cluster_1_1000 "[]" service0 0 ?ps]
    by blast
  then have 3: "\<exists>ps'. getPath [Child ''spec'', Child ''ports''] (FixObjectForPatch cluster_1_1000 service0) = Some (JList ps') \<and>
          length ps' = 2 \<and> list_all hasProtocol ps'"
    by (simp add: numeral_2_eq_2)
  show ?thesis using v 1 2 3 by blast
qed

text \<open>
  C4, as it is stated, fails: a server of version 1.25.3 is not older than 1.21, the
  version the defaults fixup is compared against, and the service port that has no protocol
  still gets \<^verbatim>\<open>TCP\<close>.
\<close>

theorem FixObjectForPatch_defaults_fix_ungated:
  "\<not> LessThan (ServerVersion cluster_1_25) v1_21 \<and>
   getPath [Child ''spec'', Child ''ports'', Nth 0, Child ''protocol''] service0 = None \<and>
   getPath [Child ''spec'', Child ''ports'', Nth 0, Child ''protocol'']
     (FixObjectForPatch cluster_1_25 service0) = Some (JStr ''TCP'')"
  by code_simp

text \<open>
  C6. On a server older than 1.1000 the numeric CPU limit and request of a container are
  still numbers after \<^verbatim>\<open>FixObjectForPatch\<close>, while the numeric CPU default of a limit
  range has become the string \<^verbatim>\<open>2\<close>: \<^verbatim>\<open>fixContainer\<close> appends
  \<^verbatim>\<open>resources.limits\<close> to the container's path with no dot in between, and that string
  is not a path.
\<close>

theorem FixObjectForPatch_container_cpu_not_coerced:
  "LessThan (ServerVersion cluster_1_25) v1_1000 \<and>
   getPath [Child ''spec'', Child ''template'', Child ''spec'', Child ''containers'', Nth 0,
            Child ''resources'', Child ''limits'', Child ''cpu'']
     (FixObjectForPatch cluster_1_25 deployment0) = Some (JInt 1) \<and>
   getPath [Child ''spec'', Child ''template'', Child ''spec'', Child ''containers'', Nth 0,
            Child ''resources'', Child ''requests'', Child ''cpu'']
     (FixObjectForPatch cluster_1_25 deployment0) = Some (JInt 1) \<and>
   getPath [Child ''spec'', Child ''limits'', Nth 0, Child ''default'', Child ''cpu'']
     (FixObjectForPatch cluster_1_25 limitRange0) = Some (JStr ''2'') \<and>
   NewMyJsonPathMust (''spec.template.spec.containers'' @ ''['' @ showNat 0 @ '']'' @ ''resources.limits'') = None"
  by code_simp


section \<open>The fan-out queries, from the calls of their units\<close>

lemma scheduled_map: "scheduled order (map f xs) = map f (scheduled order xs)"
  by (simp add: scheduled_def)

lemma isOrder_length: "isOrder n order \<Longrightarrow> length order = n"
  using distinct_card [of order] by (simp add: isOrder_def)

lemma scheduled_length: "isOrder (length xs) order \<Longrightarrow> length (scheduled order xs) = length xs"
proof -
  assume a: "isOrder (length xs) order"
  then have "filter (\<lambda>i. i < length xs) order = order"
    by (auto simp: isOrder_def filter_id_conv)
  then show ?thesis using isOrder_length [OF a] by (simp add: scheduled_def)
qed

lemma length_runs: "length (runs f xs w) = length xs"
  by (induction xs arbitrary: w) (auto split: prod.splits)

lemma map_fst_runs: "map fst (runs f xs w) = xs"
  by (induction xs arbitrary: w) (auto split: prod.splits)

lemma foldl_getUnit:
  "foldl (\<lambda>ps cb. Submit cb ps) (wp, s) (map (getUnit E k) rs) =
   (wp\<lparr>errors := errors wp @ map the (filter hardGet (map errOf (runs (GetSingleObject E k) rs (theWorld s))))\<rparr>,
    s\<lparr>ret := ret s @ concat (map (\<lambda>x. if errOf x = None then (case resultOf x of None \<Rightarrow> [] | Some v \<Rightarrow> [v]) else [])
                         (runs (GetSingleObject E k) rs (theWorld s))),
      retApiWarnings := foldl (\<lambda>m x. if warningsOf x \<noteq> [] then m(fst x \<mapsto> warningsOf x) else m)
                          (retApiWarnings s) (runs (GetSingleObject E k) rs (theWorld s)),
      theWorld := endOf (GetSingleObject E k) rs (theWorld s)\<rparr>)"
proof (induction rs arbitrary: wp s)
  case Nil
  show ?case by simp
next
  case (Cons r rs)
  obtain o' ws err w' where g: "GetSingleObject E k r (theWorld s) = ((o', ws, err), w')"
    by (metis prod_cases3 surj_pair)
  define wp1 where "wp1 = (if hardGet err then wp\<lparr>errors := errors wp @ [the err]\<rparr> else wp)"
  define s1 where "s1 = s\<lparr>ret := ret s @ (if err = None then (case o' of None \<Rightarrow> [] | Some v \<Rightarrow> [v]) else []),
                          retApiWarnings := (if ws \<noteq> [] then (retApiWarnings s)(r \<mapsto> ws) else retApiWarnings s),
                          theWorld := w'\<rparr>"
  have step: "Submit (getUnit E k r) (wp, s) = (wp1, s1)"
    using g by (cases err) (auto simp: Submit_def getUnit_def Let_def hardGet_def wp1_def s1_def)
  have "foldl (\<lambda>ps cb. Submit cb ps) (wp, s) (map (getUnit E k) (r # rs)) =
        foldl (\<lambda>ps cb. Submit cb ps) (wp1, s1) (map (getUnit E k) rs)"
    by (simp only: list.map foldl_Cons step)
  also note Cons.IH [of wp1 s1]
  finally show ?case
    using g by (simp add: wp1_def s1_def errOf_def warningsOf_def resultOf_def)
qed

lemma lastWarnings_snoc:
  "lastWarnings (tr @ [x]) key =
   (if fst x = key \<and> warningsOf x \<noteq> [] then Some (warningsOf x) else lastWarnings tr key)"
  by (simp add: lastWarnings_def)

lemma foldl_warnings:
  "foldl (\<lambda>m x. if warningsOf x \<noteq> [] then m(fst x \<mapsto> warningsOf x) else m) m tr key =
   (case lastWarnings tr key of None \<Rightarrow> m key | Some ws \<Rightarrow> Some ws)"
proof (induction tr rule: rev_induct)
  case Nil
  show ?case by (simp add: lastWarnings_def)
next
  case (snoc x tr)
  then show ?case by (simp add: lastWarnings_snoc)
qed

lemma foldl_warnings_empty:
  "foldl (\<lambda>m x. if warningsOf x \<noteq> [] then m(fst x \<mapsto> warningsOf x) else m) Map.empty tr = lastWarnings tr"
  by (rule ext) (simp add: foldl_warnings split: option.splits)

lemma lastWarnings_None_iff:
  "lastWarnings tr key = None \<longleftrightarrow> (\<forall>x \<in> set tr. fst x = key \<longrightarrow> warningsOf x = [])"
  by (auto simp: lastWarnings_def filter_empty_conv)

lemma lastWarnings_dom: "dom (lastWarnings tr) = fst ` {x \<in> set tr. warningsOf x \<noteq> []}"
proof (rule set_eqI)
  fix key
  have "key \<in> dom (lastWarnings tr) \<longleftrightarrow> lastWarnings tr key \<noteq> None" by (simp add: dom_def)
  also have "\<dots> \<longleftrightarrow> (\<exists>x \<in> set tr. fst x = key \<and> warningsOf x \<noteq> [])"
    by (simp add: lastWarnings_None_iff)
  also have "\<dots> \<longleftrightarrow> key \<in> fst ` {x \<in> set tr. warningsOf x \<noteq> []}" by auto
  finally show "key \<in> dom (lastWarnings tr) \<longleftrightarrow> key \<in> fst ` {x \<in> set tr. warningsOf x \<noteq> []}" .
qed

lemma GetObjectsByRefs_lookups:
  "GetObjectsByRefs E k order refs w =
   (case hardErrors hardGet (lookups E k order refs w) of
      [] \<Rightarrow> ((foundObjects (lookups E k order refs w), lastWarnings (lookups E k order refs w), None),
             endOf (GetSingleObject E k) (scheduled order refs) w)
    | e # es \<Rightarrow> (([], lastWarnings (lookups E k order refs w), Some e),
                 endOf (GetSingleObject E k) (scheduled order refs) w))"
  by (simp add: GetObjectsByRefs_def Let_def scheduled_map foldl_getUnit NewWorkerPoolWithErrors_def
                StopWait_def lookups_def foundObjects_def hardErrors_def foldl_warnings_empty
           split: list.splits)

lemma foldl_listUnit:
  "foldl (\<lambda>ps cb. Submit cb ps) (wp, s) (map (listUnit E k namespace labels onlyMetadata) gs) =
   (wp\<lparr>errors := errors wp @ hardErrors hardList (runs (listCall E k namespace labels onlyMetadata) gs (theWorld s))\<rparr>,
    s\<lparr>ret := ret s @ listedObjects (runs (listCall E k namespace labels onlyMetadata) gs (theWorld s)),
      retApiWarnings := foldl (\<lambda>m x. if warningsOf x \<noteq> [] then m(fst x \<mapsto> warningsOf x) else m)
                          (retApiWarnings s)
                          (filter (\<lambda>x. \<not> hardList (errOf x)) (runs (listCall E k namespace labels onlyMetadata) gs (theWorld s))),
      theWorld := endOf (listCall E k namespace labels onlyMetadata) gs (theWorld s)\<rparr>)"
proof (induction gs arbitrary: wp s)
  case Nil
  show ?case by (simp add: hardErrors_def listedObjects_def)
next
  case (Cons g gs)
  obtain l ws err w' where c: "listCall E k namespace labels onlyMetadata g (theWorld s) = ((l, ws, err), w')"
    by (metis prod_cases3 surj_pair)
  define wp1 where "wp1 = (if hardList err then wp\<lparr>errors := errors wp @ [the err]\<rparr> else wp)"
  define s1 where "s1 = (if hardList err then s\<lparr>theWorld := w'\<rparr>
                         else s\<lparr>ret := ret s @ l,
                                retApiWarnings := (if ws \<noteq> [] then (retApiWarnings s)(g \<mapsto> ws) else retApiWarnings s),
                                theWorld := w'\<rparr>)"
  have step: "Submit (listUnit E k namespace labels onlyMetadata g) (wp, s) = (wp1, s1)"
    using c by (cases err) (auto simp: Submit_def listUnit_def listCall_def hardList_def wp1_def s1_def)
  have "foldl (\<lambda>ps cb. Submit cb ps) (wp, s) (map (listUnit E k namespace labels onlyMetadata) (g # gs)) =
        foldl (\<lambda>ps cb. Submit cb ps) (wp1, s1) (map (listUnit E k namespace labels onlyMetadata) gs)"
    by (simp only: list.map foldl_Cons step)
  also note Cons.IH [of wp1 s1]
  finally show ?case
    using c by (simp add: wp1_def s1_def errOf_def warningsOf_def resultOf_def hardErrors_def listedObjects_def)
qed

lemma ListAllObjects_listings:
  "ListAllObjects E k order verbs namespace labels onlyMetadata w =
   (case hardErrors hardList (listings E k order verbs namespace labels onlyMetadata w) of
      [] \<Rightarrow> ((listedObjects (listings E k order verbs namespace labels onlyMetadata w),
              lastWarnings (filter (\<lambda>x. \<not> hardList (errOf x)) (listings E k order verbs namespace labels onlyMetadata w)),
              None),
             endOf (listCall E k namespace labels onlyMetadata)
               (scheduled order (GetFilteredPreferredGVKs E k w (listFilter verbs))) w)
    | e # es \<Rightarrow> (([], lastWarnings (filter (\<lambda>x. \<not> hardList (errOf x)) (listings E k order verbs namespace labels onlyMetadata w)),
                  Some e),
                 endOf (listCall E k namespace labels onlyMetadata)
                   (scheduled order (GetFilteredPreferredGVKs E k w (listFilter verbs))) w))"
  by (simp add: ListAllObjects_def Let_def scheduled_map foldl_listUnit NewWorkerPoolWithErrors_def
                StopWait_def listings_def foldl_warnings_empty
           split: list.splits)

lemma runs_all:
  assumes "\<And>x w r w'. f x w = (r, w') \<Longrightarrow> P r"
  shows "\<forall>y \<in> set (runs f xs w). P (snd y)"
proof (induction xs arbitrary: w)
  case Nil
  show ?case by simp
next
  case (Cons x xs)
  obtain r w' where f: "f x w = (r, w')" by (cases "f x w")
  then show ?case using Cons [of w'] assms [OF f] by simp
qed

lemma GetSingleObject_shape:
  "GetSingleObject E k r w = (res, w') \<Longrightarrow> (fst res = None) = (snd (snd res) \<noteq> None)"
  by (auto simp: GetSingleObject_def objectResult_def split: prod.splits sum.splits)

lemma lookups_shape:
  "x \<in> set (lookups E k order refs w) \<Longrightarrow> (resultOf x = None) = (errOf x \<noteq> None)"
  using runs_all [of "GetSingleObject E k" "\<lambda>res. (fst res = None) = (snd (snd res) \<noteq> None)"
                     "scheduled order refs" w]
        GetSingleObject_shape
  by (fastforce simp: lookups_def resultOf_def errOf_def)

lemma length_lookups: "isOrder (length refs) order \<Longrightarrow> length (lookups E k order refs w) = length refs"
  by (simp add: lookups_def length_runs scheduled_length)

lemma foundObjects_append: "foundObjects (xs @ ys) = foundObjects xs @ foundObjects ys"
  by (simp add: foundObjects_def)

lemma foundObjects_all:
  "\<forall>x \<in> set xs. errOf x = None \<and> resultOf x \<noteq> None \<Longrightarrow> map Some (foundObjects xs) = map resultOf xs"
  by (induction xs) (auto simp: foundObjects_def)

lemma hardErrors_Nil_iff: "hardErrors hard tr = [] \<longleftrightarrow> (\<forall>x \<in> set tr. \<not> hard (errOf x))"
  by (auto simp: hardErrors_def filter_empty_conv)

lemma hardErrors_hd:
  assumes "hardErrors hardGet tr \<noteq> []"
  shows "\<exists>x \<in> set tr. errOf x = Some (hd (hardErrors hardGet tr)) \<and>
                       \<not> IsNotFound (hd (hardErrors hardGet tr)) \<and>
                       \<not> IsNoMatchError (hd (hardErrors hardGet tr))"
proof -
  let ?hs = "filter hardGet (map errOf tr)"
  have ne: "?hs \<noteq> []" using assms by (simp add: hardErrors_def)
  then have "hd ?hs \<in> set ?hs" by (rule hd_in_set)
  then have h1: "hd ?hs \<in> set (map errOf tr)" and h2: "hardGet (hd ?hs)" by simp_all
  from h2 obtain e where e: "hd ?hs = Some e"
    by (cases "hd ?hs") (simp_all add: hardGet_def)
  have hd: "hd (hardErrors hardGet tr) = e" using ne e by (simp add: hardErrors_def hd_map)
  from h1 e obtain x where x: "x \<in> set tr" "errOf x = Some e" by auto
  from h2 e have "\<not> IsNotFound e \<and> \<not> IsNoMatchError e" by (simp add: hardGet_def)
  with x hd show ?thesis by blast
qed

lemma lookups_two:
  "lookups envWidgets cluster_1_25 [1, 0] [refHere, refGone] world0 =
     [(refGone, None, [warnDeprecated], Some (StatusError NotFound ''widgets gone not found'')),
      (refHere, Some widgetHere, [], None)]"
  by code_simp

lemma lookups_three:
  "lookups envWidgets cluster_1_25 [1, 0, 2] [refHere, refGone, refDown] world0 =
     [(refGone, None, [warnDeprecated], Some (StatusError NotFound ''widgets gone not found'')),
      (refHere, Some widgetHere, [], None),
      (refDown, None, [warnDeprecated], Some (TransportError ''connection refused''))]"
  by code_simp

text \<open>
  C1, as the code has it. When exactly one lookup fails with not-found and every other
  lookup succeeds, \<^verbatim>\<open>GetObjectsByRefs\<close> returns a nil error and the objects of the other
  lookups, one fewer than there are refs, for every order in which the workers finish. The
  warnings of a lookup are recorded before its error is looked at: the keys of the
  warnings map are the refs whose lookup returned warnings, so the not-found ref is absent
  from the map exactly when no lookup of it returned a warning.
\<close>

theorem GetObjectsByRefs_one_not_found:
  assumes "isOrder (length refs) order"
    and "lookups E k order refs w = tr"
    and "p < length tr" and "errOf (tr ! p) = Some e" and "IsNotFound e"
    and "\<forall>q < length tr. q \<noteq> p \<longrightarrow> errOf (tr ! q) = None"
  shows "errorReturned (GetObjectsByRefs E k order refs w) = None \<and>
         map Some (objectsReturned (GetObjectsByRefs E k order refs w)) =
           map resultOf (take p tr @ drop (Suc p) tr) \<and>
         length (objectsReturned (GetObjectsByRefs E k order refs w)) = length refs - 1 \<and>
         dom (warningsReturned (GetObjectsByRefs E k order refs w)) =
           fst ` {x \<in> set tr. warningsOf x \<noteq> []} \<and>
         (warningsReturned (GetObjectsByRefs E k order refs w) (fst (tr ! p)) = None \<longleftrightarrow>
            (\<forall>x \<in> set tr. fst x = fst (tr ! p) \<longrightarrow> warningsOf x = []))"
proof -
  have split: "tr = take p tr @ tr ! p # drop (Suc p) tr"
    using assms(3) by (rule id_take_nth_drop)
  have others: "\<forall>x \<in> set (take p tr @ drop (Suc p) tr). errOf x = None"
  proof
    fix x assume "x \<in> set (take p tr @ drop (Suc p) tr)"
    then consider "x \<in> set (take p tr)" | "x \<in> set (drop (Suc p) tr)" by auto
    then show "errOf x = None"
    proof cases
      case 1
      then obtain q where "q < length (take p tr)" "take p tr ! q = x" by (auto simp: in_set_conv_nth)
      then show ?thesis using assms(6) by auto
    next
      case 2
      then obtain q where q: "q < length (drop (Suc p) tr)" "drop (Suc p) tr ! q = x"
        by (auto simp: in_set_conv_nth)
      then have "Suc p + q < length tr" "tr ! (Suc p + q) = x" by auto
      then show ?thesis using assms(6) by auto
    qed
  qed
  have sub: "set (take p tr @ drop (Suc p) tr) \<subseteq> set tr"
    using set_take_subset [of p tr] set_drop_subset [of "Suc p" tr] by auto
  have good: "\<forall>x \<in> set (take p tr @ drop (Suc p) tr). errOf x = None \<and> resultOf x \<noteq> None"
    using others sub lookups_shape [of _ E k order refs w] assms(2) by blast
  have nohard: "hardErrors hardGet tr = []"
  proof -
    have "\<forall>x \<in> set tr. \<not> hardGet (errOf x)"
    proof
      fix x assume "x \<in> set tr"
      then have "x = tr ! p \<or> x \<in> set (take p tr @ drop (Suc p) tr)"
        using split by (metis Un_iff set_ConsD set_append)
      then show "\<not> hardGet (errOf x)"
        using assms(4,5) others by (auto simp: hardGet_def)
    qed
    then show ?thesis by (simp add: hardErrors_Nil_iff)
  qed
  have res: "fst (GetObjectsByRefs E k order refs w) = (foundObjects tr, lastWarnings tr, None)"
    using nohard assms(2) by (simp add: GetObjectsByRefs_lookups)
  have "foundObjects tr = foundObjects (take p tr) @ foundObjects [tr ! p] @ foundObjects (drop (Suc p) tr)"
    using split foundObjects_append by (metis append_Cons append_Nil)
  moreover have "foundObjects [tr ! p] = []" using assms(4) by (simp add: foundObjects_def)
  ultimately have "foundObjects tr = foundObjects (take p tr @ drop (Suc p) tr)"
    by (simp add: foundObjects_append)
  then have objs: "map Some (foundObjects tr) = map resultOf (take p tr @ drop (Suc p) tr)"
    using foundObjects_all [OF good] by simp
  have "length (map Some (foundObjects tr)) = length tr - 1"
    unfolding objs using assms(3) by simp
  then have len: "length (foundObjects tr) = length refs - 1"
    using length_lookups [OF assms(1), of E k w] assms(2) by simp
  show ?thesis
    using res objs len lastWarnings_dom [of tr] lastWarnings_None_iff [of tr "fst (tr ! p)"]
    by (simp add: errorReturned_def objectsReturned_def warningsReturned_def)
qed

theorem GetObjectsByRefs_one_not_found_witness:
  "errorReturned (GetObjectsByRefs envWidgets cluster_1_25 [1, 0] [refHere, refGone] world0) = None \<and>
   map Some (objectsReturned (GetObjectsByRefs envWidgets cluster_1_25 [1, 0] [refHere, refGone] world0)) =
     [Some widgetHere] \<and>
   length (objectsReturned (GetObjectsByRefs envWidgets cluster_1_25 [1, 0] [refHere, refGone] world0)) = 1 \<and>
   dom (warningsReturned (GetObjectsByRefs envWidgets cluster_1_25 [1, 0] [refHere, refGone] world0)) = {refGone}"
proof -
  let ?tr = "[(refGone, None, [warnDeprecated], Some (StatusError NotFound ''widgets gone not found'')),
              (refHere, Some widgetHere, [], None)]"
  have o: "isOrder (length [refHere, refGone]) [1, 0]" by code_simp
  have p: "0 < length ?tr" by simp
  have e: "errOf (?tr ! 0) = Some (StatusError NotFound ''widgets gone not found'')"
    by (simp add: errOf_def)
  have n: "IsNotFound (StatusError NotFound ''widgets gone not found'')" by simp
  have r: "\<forall>q < length ?tr. q \<noteq> 0 \<longrightarrow> errOf (?tr ! q) = None"
    by (simp add: errOf_def less_Suc_eq)
  have d: "fst ` {x \<in> set ?tr. warningsOf x \<noteq> []} = {refGone}"
    by (force simp: warningsOf_def)
  show ?thesis
    using GetObjectsByRefs_one_not_found [OF o lookups_two p e n r] d
    by (simp add: resultOf_def)
qed

text \<open>
  C1, as it is stated, fails: the fetch of \<^verbatim>\<open>gone\<close> is answered not-found together with
  a deprecation warning, the other fetch succeeds, the call returns a nil error and the one
  object, and the not-found ref is a key of the warnings map.
\<close>

theorem GetObjectsByRefs_not_found_ref_has_warnings:
  "isOrder (length [refHere, refGone]) [1, 0] \<and>
   map errOf (lookups envWidgets cluster_1_25 [1, 0] [refHere, refGone] world0) =
     [Some (StatusError NotFound ''widgets gone not found''), None] \<and>
   IsNotFound (StatusError NotFound ''widgets gone not found'') \<and>
   errorReturned (GetObjectsByRefs envWidgets cluster_1_25 [1, 0] [refHere, refGone] world0) = None \<and>
   objectsReturned (GetObjectsByRefs envWidgets cluster_1_25 [1, 0] [refHere, refGone] world0) = [widgetHere] \<and>
   warningsReturned (GetObjectsByRefs envWidgets cluster_1_25 [1, 0] [refHere, refGone] world0) refGone =
     Some [warnDeprecated]"
  by code_simp

text \<open>
  C2. When the call of some ref fails with an error that is neither not-found nor no-match,
  \<^verbatim>\<open>GetObjectsByRefs\<close> returns no objects and a non-nil error: the first such error in
  the order the workers finish, an error that one of the lookups returned.
\<close>

theorem GetObjectsByRefs_hard_error:
  assumes "x \<in> set (lookups E k order refs w)"
    and "errOf x = Some e" and "\<not> IsNotFound e" and "\<not> IsNoMatchError e"
  shows "objectsReturned (GetObjectsByRefs E k order refs w) = [] \<and>
         errorReturned (GetObjectsByRefs E k order refs w) =
           Some (hd (hardErrors hardGet (lookups E k order refs w))) \<and>
         (\<exists>y \<in> set (lookups E k order refs w).
            errOf y = Some (hd (hardErrors hardGet (lookups E k order refs w))) \<and>
            \<not> IsNotFound (hd (hardErrors hardGet (lookups E k order refs w))) \<and>
            \<not> IsNoMatchError (hd (hardErrors hardGet (lookups E k order refs w))))"
proof -
  let ?tr = "lookups E k order refs w"
  have "hardGet (errOf x)" using assms(2-4) by (simp add: hardGet_def)
  then have ne: "hardErrors hardGet ?tr \<noteq> []"
    using assms(1) by (auto simp: hardErrors_Nil_iff)
  then obtain e' es where es: "hardErrors hardGet ?tr = e' # es" by (cases "hardErrors hardGet ?tr") auto
  then have "fst (GetObjectsByRefs E k order refs w) = ([], lastWarnings ?tr, Some e')"
    by (simp add: GetObjectsByRefs_lookups)
  then show ?thesis
    using hardErrors_hd [OF ne] es by (simp add: errorReturned_def objectsReturned_def)
qed

theorem GetObjectsByRefs_hard_error_witness:
  "objectsReturned (GetObjectsByRefs envWidgets cluster_1_25 [1, 0, 2] [refHere, refGone, refDown] world0) = [] \<and>
   errorReturned (GetObjectsByRefs envWidgets cluster_1_25 [1, 0, 2] [refHere, refGone, refDown] world0) =
     Some (TransportError ''connection refused'')"
proof -
  let ?x = "(refDown, None :: json option, [warnDeprecated], Some (TransportError ''connection refused''))"
  have m: "?x \<in> set (lookups envWidgets cluster_1_25 [1, 0, 2] [refHere, refGone, refDown] world0)"
    by (subst lookups_three) simp
  have e: "errOf ?x = Some (TransportError ''connection refused'')" by (simp add: errOf_def)
  have h: "hd (hardErrors hardGet (lookups envWidgets cluster_1_25 [1, 0, 2] [refHere, refGone, refDown] world0)) =
           TransportError ''connection refused''"
    by (subst lookups_three) (simp add: hardErrors_def hardGet_def errOf_def)
  show ?thesis
    using GetObjectsByRefs_hard_error [OF m e] h by simp
qed

text \<open>
  C10. When \<^verbatim>\<open>GetObjectsByRefs\<close> or \<^verbatim>\<open>ListAllObjects\<close> returns an error, the object list
  it returns is nil and the warnings map is the one its units accumulated: under every ref
  the warnings of the last lookup of that ref that returned any; under every kind the
  warnings of the last list call of that kind that returned any and did not fail hard.
\<close>

theorem fanout_error_keeps_warnings:
  "(errorReturned (GetObjectsByRefs E k order refs w) \<noteq> None \<longrightarrow>
      objectsReturned (GetObjectsByRefs E k order refs w) = [] \<and>
      warningsReturned (GetObjectsByRefs E k order refs w) = lastWarnings (lookups E k order refs w)) \<and>
   (errorReturned (ListAllObjects E k order verbs namespace labels onlyMetadata w) \<noteq> None \<longrightarrow>
      objectsReturned (ListAllObjects E k order verbs namespace labels onlyMetadata w) = [] \<and>
      warningsReturned (ListAllObjects E k order verbs namespace labels onlyMetadata w) =
        lastWarnings (filter (\<lambda>x. \<not> hardList (errOf x))
                        (listings E k order verbs namespace labels onlyMetadata w)))"
  by (simp add: GetObjectsByRefs_lookups ListAllObjects_listings errorReturned_def objectsReturned_def
                warningsReturned_def split: list.splits)

theorem fanout_error_keeps_warnings_witness:
  "errorReturned (GetObjectsByRefs envWidgets cluster_1_25 [1, 0, 2] [refHere, refGone, refDown] world0) =
     Some (TransportError ''connection refused'') \<and>
   objectsReturned (GetObjectsByRefs envWidgets cluster_1_25 [1, 0, 2] [refHere, refGone, refDown] world0) = [] \<and>
   warningsReturned (GetObjectsByRefs envWidgets cluster_1_25 [1, 0, 2] [refHere, refGone, refDown] world0) refDown =
     Some [warnDeprecated] \<and>
   warningsReturned (GetObjectsByRefs envWidgets cluster_1_25 [1, 0, 2] [refHere, refGone, refDown] world0) refGone =
     Some [warnDeprecated] \<and>
   errorReturned (ListAllObjects envNoMatch cluster_1_25 [0] [''list''] [] [] False world0) =
     Some (NoKindMatchError gvkWidget) \<and>
   objectsReturned (ListAllObjects envNoMatch cluster_1_25 [0] [''list''] [] [] False world0) = []"
proof -
  have g: "errorReturned (GetObjectsByRefs envWidgets cluster_1_25 [1, 0, 2] [refHere, refGone, refDown] world0) =
     Some (TransportError ''connection refused'')"
    by code_simp
  have l: "errorReturned (ListAllObjects envNoMatch cluster_1_25 [0] [''list''] [] [] False world0) =
     Some (NoKindMatchError gvkWidget)"
    by code_simp
  have w1: "lastWarnings (lookups envWidgets cluster_1_25 [1, 0, 2] [refHere, refGone, refDown] world0) refDown =
            Some [warnDeprecated]"
    by code_simp
  have w2: "lastWarnings (lookups envWidgets cluster_1_25 [1, 0, 2] [refHere, refGone, refDown] world0) refGone =
            Some [warnDeprecated]"
    by code_simp
  show ?thesis
    using g l w1 w2
      fanout_error_keeps_warnings [of envWidgets cluster_1_25 "[1, 0, 2]" "[refHere, refGone, refDown]" world0]
      fanout_error_keeps_warnings [of envNoMatch cluster_1_25 "[0]" "[]" world0 "[''list'']" "[]" "[]" False]
    by simp
qed

lemma ListAllObjects_not_found_tolerated:
  assumes "\<forall>x \<in> set (listings E k order verbs namespace labels onlyMetadata w).
             case errOf x of None \<Rightarrow> True | Some e \<Rightarrow> IsNotFound e"
  shows "errorReturned (ListAllObjects E k order verbs namespace labels onlyMetadata w) = None \<and>
         objectsReturned (ListAllObjects E k order verbs namespace labels onlyMetadata w) =
           concat (map resultOf (listings E k order verbs namespace labels onlyMetadata w))"
proof -
  let ?tr = "listings E k order verbs namespace labels onlyMetadata w"
  have nh: "\<forall>x \<in> set ?tr. \<not> hardList (errOf x)"
    using assms by (auto simp: hardList_def split: option.splits)
  then have "hardErrors hardList ?tr = []" by (simp add: hardErrors_Nil_iff)
  moreover have "listedObjects ?tr = concat (map resultOf ?tr)"
    using nh by (simp add: listedObjects_def cong: map_cong)
  ultimately show ?thesis
    by (simp add: ListAllObjects_listings errorReturned_def objectsReturned_def)
qed

text \<open>
  C3. The resolver lists the kind \<^verbatim>\<open>Widget\<close> and then fails to resolve it with a
  no-match error: \<^verbatim>\<open>ListAllObjects\<close> returns that error and no objects, where
  \<^verbatim>\<open>GetObjectsByRefs\<close>, for a ref of the same kind in the same environment, returns a nil
  error. The unit of \<^verbatim>\<open>ListAllObjects\<close> tolerates not-found only.
\<close>

theorem ListAllObjects_no_match_is_error:
  "GetFilteredPreferredGVKs envNoMatch cluster_1_25 world0 (listFilter [''list'']) = [gvkWidget] \<and>
   map errOf (listings envNoMatch cluster_1_25 [0] [''list''] [] [] False world0) =
     [Some (NoKindMatchError gvkWidget)] \<and>
   IsNoMatchError (NoKindMatchError gvkWidget) \<and>
   errorReturned (ListAllObjects envNoMatch cluster_1_25 [0] [''list''] [] [] False world0) =
     Some (NoKindMatchError gvkWidget) \<and>
   objectsReturned (ListAllObjects envNoMatch cluster_1_25 [0] [''list''] [] [] False world0) = [] \<and>
   errorReturned (GetObjectsByRefs envNoMatch cluster_1_25 [0] [refHere] world0) = None"
  by code_simp

end
